theory Spec2Isabelle
  imports Main "HOL-Library.Char_ord" "HOL-Library.List_Lexorder"
begin

section \<open>Data model\<close>

text \<open>
  One row of the table \<^verbatim>\<open>streamlit.Fbref_Appearances\<close>, as \<^verbatim>\<open>pd.read_sql\<close> delivers it.
  The grouping keys \<^verbatim>\<open>player_name\<close>, \<^verbatim>\<open>competition_name\<close>, \<^verbatim>\<open>season_name\<close> and
  \<^verbatim>\<open>team_name\<close> are strings; every other column may hold a null (\<open>None\<close>), either an SQL
  NULL or, after \<^verbatim>\<open>replace(-1, pd.NA)\<close>, a replaced sentinel. Strings are byte lists
  (UTF-8), ordered lexicographically by byte, which is Python's order by code point;
  the slice \<^verbatim>\<open>[:4]\<close> is \<open>take 4\<close>, exact where the first four characters are ASCII.
\<close>

record appearance =
  player_name :: string
  competition_name :: string
  season_name :: string
  team_name :: string
  game_date :: nat
  nationality :: "string option"
  player_position :: "string option"
  shirt_number :: "int option"
  minutes_played :: "int option"
  goals :: "int option"
  assists :: "int option"
  yellow_cards :: "int option"
  red_cards :: "int option"
  number_of_seasons :: "int option"

type_synonym dataframe = "appearance list"

text \<open>The places where the program raises instead of returning.\<close>

datatype failure =
    Strftime_of_null    \<comment> \<open>\<^verbatim>\<open>load_latest_game_date().strftime\<close> on an empty table\<close>
  | Int_of_null         \<comment> \<open>\<^verbatim>\<open>int(df.iloc[0]["max_seasons"])\<close> on a NULL maximum\<close>
  | Iat_out_of_bounds   \<comment> \<open>\<^verbatim>\<open>.mode().iat[0]\<close> on an empty mode\<close>
  | Invalid_int_literal \<comment> \<open>\<^verbatim>\<open>.str[:4].astype(int)\<close> on a prefix that is no integer\<close>
  | Range_of_nan        \<comment> \<open>\<^verbatim>\<open>range(min, max + 1)\<close> over an empty season table\<close>

text \<open>A displayed metric that is a number or a text (\<^verbatim>\<open>shirt_number\<close> is either).\<close>

datatype metric = Num int | Txt string

section \<open>Python and pandas primitives\<close>

subsection \<open>\<^verbatim>\<open>int(str)\<close> and \<^verbatim>\<open>str(int)\<close>\<close>

definition is_space :: "char \<Rightarrow> bool" where
  "is_space c = ((of_char c :: nat) \<in> {9, 10, 11, 12, 13, 32})"

definition is_digit :: "char \<Rightarrow> bool" where
  "is_digit c = (48 \<le> (of_char c :: nat) \<and> (of_char c :: nat) \<le> 57)"

definition digit_val :: "char \<Rightarrow> nat" where
  "digit_val c = of_char c - 48"

definition strip :: "string \<Rightarrow> string" where
  "strip s = rev (dropWhile is_space (rev (dropWhile is_space s)))"

text \<open>
  The digits of a decimal literal after its first digit: a digit, or one underscore
  followed by a digit.
\<close>

fun more_digits :: "nat \<Rightarrow> string \<Rightarrow> nat option" where
  "more_digits acc [] = Some acc"
| "more_digits acc [c] = (if is_digit c then Some (10 * acc + digit_val c) else None)"
| "more_digits acc (c # d # cs) =
     (if is_digit c then more_digits (10 * acc + digit_val c) (d # cs)
      else if c = CHR ''_'' \<and> is_digit d then more_digits (10 * acc + digit_val d) cs
      else None)"

definition decimal :: "string \<Rightarrow> nat option" where
  "decimal s = (case s of [] \<Rightarrow> None
     | c # cs \<Rightarrow> if is_digit c then more_digits (digit_val c) cs else None)"

text \<open>
  \<^verbatim>\<open>int(s)\<close> in base 10 on ASCII text, which is what \<^verbatim>\<open>astype(int)\<close> applies to each
  string: surrounding whitespace (tab, line feed, vertical tab, form feed, carriage return,
  space) is dropped, one sign is allowed, then a decimal literal, in which single
  underscores may stand between digits. Anything else raises \<^verbatim>\<open>ValueError\<close>. Digits and
  spaces beyond ASCII are outside the model.
\<close>

definition py_int :: "string \<Rightarrow> failure + int" where
  "py_int s =
     (case strip s of
        [] \<Rightarrow> Inl Invalid_int_literal
      | c # cs \<Rightarrow>
          if c = CHR ''-'' then
            (case decimal cs of None \<Rightarrow> Inl Invalid_int_literal | Some n \<Rightarrow> Inr (- int n))
          else if c = CHR ''+'' then
            (case decimal cs of None \<Rightarrow> Inl Invalid_int_literal | Some n \<Rightarrow> Inr (int n))
          else
            (case decimal (c # cs) of None \<Rightarrow> Inl Invalid_int_literal | Some n \<Rightarrow> Inr (int n)))"

definition digit_char :: "nat \<Rightarrow> char" where
  "digit_char n = char_of (48 + n)"

fun str_nat :: "nat \<Rightarrow> string" where
  "str_nat n = (if n < 10 then [digit_char n] else str_nat (n div 10) @ [digit_char (n mod 10)])"

declare str_nat.simps [simp del]

definition str_int :: "int \<Rightarrow> string" where
  "str_int i = (if i < 0 then CHR ''-'' # str_nat (nat (- i)) else str_nat (nat i))"

text \<open>\<^verbatim>\<open>sep.join(xs)\<close>.\<close>

fun join :: "string \<Rightarrow> string list \<Rightarrow> string" where
  "join sep [] = []"
| "join sep [x] = x"
| "join sep (x # y # ys) = x @ sep @ join sep (y # ys)"

subsection \<open>Series operations\<close>

text \<open>\<^verbatim>\<open>Series.astype(int)\<close> on strings: every element is converted, the first bad one raises.\<close>

fun astype_int :: "string list \<Rightarrow> failure + int list" where
  "astype_int [] = Inr []"
| "astype_int (s # ss) =
     (case py_int s of
        Inl e \<Rightarrow> Inl e
      | Inr i \<Rightarrow> (case astype_int ss of Inl e \<Rightarrow> Inl e | Inr is \<Rightarrow> Inr (i # is)))"

fun dropna :: "'a option list \<Rightarrow> 'a list" where
  "dropna [] = []"
| "dropna (None # xs) = dropna xs"
| "dropna (Some v # xs) = v # dropna xs"

text \<open>
  \<^verbatim>\<open>Series.sum(skipna=True)\<close>: nulls contribute nothing, an all-null column sums to 0.
  The sum is an unbounded integer; a 64-bit column whose sum reaches \<open>2^63\<close> wraps in
  the program, which is outside the model.
\<close>

definition sum_skipna :: "int option list \<Rightarrow> int" where
  "sum_skipna xs = sum_list (dropna xs)"

text \<open>
  \<^verbatim>\<open>Series.mode()\<close> (\<^verbatim>\<open>dropna=True\<close>): the non-null values that occur most often, in
  ascending order; empty when the column has no non-null value.
\<close>

definition series_mode :: "('a::linorder) option list \<Rightarrow> 'a list" where
  "series_mode xs =
     (let vs = dropna xs;
          top = fold max (map (count_list vs) vs) 0
      in sort (remdups (filter (\<lambda>v. count_list vs v = top) vs)))"

text \<open>\<^verbatim>\<open>.iat[0]\<close>: the first element, \<^verbatim>\<open>IndexError\<close> on an empty series.\<close>

definition iat0 :: "'a list \<Rightarrow> failure + 'a" where
  "iat0 xs = (case xs of [] \<Rightarrow> Inl Iat_out_of_bounds | x # _ \<Rightarrow> Inr x)"

section \<open>Aggregation stage of \<^verbatim>\<open>create_streamlit_app\<close>\<close>

text \<open>\<^verbatim>\<open>final_df.replace(-1, pd.NA)\<close>: every cell equal to the number -1 becomes null.\<close>

definition replace_sentinel :: "int option \<Rightarrow> int option" where
  "replace_sentinel v = (if v = Some (- 1) then None else v)"

definition replace_row :: "appearance \<Rightarrow> appearance" where
  "replace_row r =
     r\<lparr> shirt_number := replace_sentinel (shirt_number r),
        minutes_played := replace_sentinel (minutes_played r),
        goals := replace_sentinel (goals r),
        assists := replace_sentinel (assists r),
        yellow_cards := replace_sentinel (yellow_cards r),
        red_cards := replace_sentinel (red_cards r),
        number_of_seasons := replace_sentinel (number_of_seasons r) \<rparr>"

definition replace_df :: "dataframe \<Rightarrow> dataframe" where
  "replace_df df = map replace_row df"

definition total_appearances :: "dataframe \<Rightarrow> int" where
  "total_appearances df = int (length df)"

definition total_goals :: "dataframe \<Rightarrow> int" where
  "total_goals df = sum_skipna (map goals df)"

definition total_assists :: "dataframe \<Rightarrow> int" where
  "total_assists df = sum_skipna (map assists df)"

definition total_yellows :: "dataframe \<Rightarrow> int" where
  "total_yellows df = sum_skipna (map yellow_cards df)"

definition total_reds :: "dataframe \<Rightarrow> int" where
  "total_reds df = sum_skipna (map red_cards df)"

definition total_minutes_played :: "dataframe \<Rightarrow> int" where
  "total_minutes_played df = sum_skipna (map minutes_played df)"

definition nationality_mode :: "dataframe \<Rightarrow> failure + string" where
  "nationality_mode df = iat0 (series_mode (map nationality df))"

definition number_of_seasons_mode :: "dataframe \<Rightarrow> failure + int" where
  "number_of_seasons_mode df = iat0 (series_mode (map number_of_seasons df))"

text \<open>
  The comparison \<^verbatim>\<open>!= "N/A"\<close> keeps a null position (null differs from every string);
  the mode then drops it.
\<close>

definition main_position :: "dataframe \<Rightarrow> string" where
  "main_position df =
     (case series_mode (filter (\<lambda>p. p \<noteq> Some ''N/A'') (map player_position df)) of
        [] \<Rightarrow> ''Unknown''
      | p # _ \<Rightarrow> p)"

definition most_used_shirt_number :: "dataframe \<Rightarrow> metric" where
  "most_used_shirt_number df =
     (case series_mode (filter (\<lambda>n. n \<noteq> None) (map shirt_number df)) of
        [] \<Rightarrow> Txt ''Unknown''
      | n # _ \<Rightarrow> Num n)"

subsection \<open>Team order\<close>

text \<open>
  \<^verbatim>\<open>groupby("team_name")["season_name"].min()\<close>: one row per team, teams in ascending
  order, each with the least season name (as a string) among its rows.
\<close>

definition first_seasons :: "dataframe \<Rightarrow> (string \<times> string) list" where
  "first_seasons df =
     map (\<lambda>t. (t, min_list (map season_name (filter (\<lambda>r. team_name r = t) df))))
       (sort (remdups (map team_name df)))"

text \<open>
  The start year is read from the first four characters; \<^verbatim>\<open>sort_values\<close> orders the
  teams by it. Teams with equal start years keep their alphabetical order here (a
  stable sort); the quicksort behind \<^verbatim>\<open>sort_values\<close> may order such ties otherwise, and
  no statement below depends on how they are ordered.
\<close>

definition team_order :: "dataframe \<Rightarrow> failure + string list" where
  "team_order df =
     (let grouped = first_seasons df in
      case astype_int (map (\<lambda>(t, s). take 4 s) grouped) of
        Inl e \<Rightarrow> Inl e
      | Inr season_start \<Rightarrow> Inr (map fst (sort_key snd (zip (map fst grouped) season_start))))"

definition en_dash :: string where
  "en_dash = [CHR '' '', CHR 0xE2, CHR 0x80, CHR 0x93, CHR '' '']"

definition teams :: "dataframe \<Rightarrow> failure + string" where
  "teams df = (case team_order df of Inl e \<Rightarrow> Inl e | Inr ts \<Rightarrow> Inr (join en_dash ts))"

subsection \<open>Season table\<close>

text \<open>
  \<^verbatim>\<open>groupby("season_name").agg(Appearances=("player_name", "count"), Goals=("goals", "sum"))\<close>:
  one row per season name, in ascending order of the name, with the number of rows and
  the sum of the non-null goals.
\<close>

definition group_seasons :: "dataframe \<Rightarrow> (string \<times> int \<times> int) list" where
  "group_seasons df =
     map (\<lambda>s. (s, int (length (filter (\<lambda>r. season_name r = s) df)),
                  sum_skipna (map goals (filter (\<lambda>r. season_name r = s) df))))
       (sort (remdups (map season_name df)))"

definition season_label :: "int \<Rightarrow> string" where
  "season_label y = str_int y @ ''/'' @ str_int (y + 1)"

text \<open>
  The left merge of the year range with the grouped table: every year of the range, in
  order, once per grouped row with that start year, or once with nulls when there is none;
  \<^verbatim>\<open>fillna(0)\<close> turns the nulls into 0.
\<close>

definition merge_year :: "(int \<times> string \<times> int \<times> int) list \<Rightarrow> int \<Rightarrow> (string \<times> int \<times> int) list" where
  "merge_year stats y =
     (case filter (\<lambda>(st, s, a, g). st = y) stats of
        [] \<Rightarrow> [(season_label y, 0, 0)]
      | ms \<Rightarrow> map (\<lambda>(st, s, a, g). (season_label y, a, g)) ms)"

definition season_stats :: "dataframe \<Rightarrow> failure + (string \<times> int \<times> int) list" where
  "season_stats df =
     (let grouped = sort_key fst (group_seasons df) in
      case astype_int (map (\<lambda>(s, a, g). take 4 s) grouped) of
        Inl e \<Rightarrow> Inl e
      | Inr season_start \<Rightarrow>
          if season_start = [] then Inl Range_of_nan
          else Inr (concat (map (merge_year (zip season_start grouped))
                              [Min (set season_start) .. Max (set season_start)])))"

subsection \<open>The overview\<close>

record overview =
  Number_of_seasons :: int
  Appearances :: int
  Goals :: int
  Assists :: int
  Nationality :: string
  Position :: string
  Most_used_shirt_number :: metric
  Yellow_Cards :: int
  Red_Cards :: int
  Total_minutes_played :: int
  Teams_played_for :: string
  Season_table :: "(string \<times> int \<times> int) list"

text \<open>
  Lines 265 to 360, in the order the source evaluates them: the first failing step
  decides the failure.
\<close>

definition aggregate :: "dataframe \<Rightarrow> failure + overview" where
  "aggregate filtered =
     (let final_df = replace_df filtered in
      case nationality_mode final_df of
        Inl e \<Rightarrow> Inl e
      | Inr nation \<Rightarrow>
      (case number_of_seasons_mode final_df of
        Inl e \<Rightarrow> Inl e
      | Inr nos \<Rightarrow>
      (case teams final_df of
        Inl e \<Rightarrow> Inl e
      | Inr ts \<Rightarrow>
      (case season_stats final_df of
        Inl e \<Rightarrow> Inl e
      | Inr tbl \<Rightarrow>
          Inr \<lparr> Number_of_seasons = nos,
                Appearances = total_appearances final_df,
                Goals = total_goals final_df,
                Assists = total_assists final_df,
                Nationality = nation,
                Position = main_position final_df,
                Most_used_shirt_number = most_used_shirt_number final_df,
                Yellow_Cards = total_yellows final_df,
                Red_Cards = total_reds final_df,
                Total_minutes_played = total_minutes_played final_df,
                Teams_played_for = ts,
                Season_table = tbl \<rparr>))))"

section \<open>Query layer\<close>

text \<open>
  The world outside the program: the rows of the table, the number of engines that
  \<^verbatim>\<open>connect_to_sql_alchemy_server\<close> has created, the queries sent so far, and one
  \<^verbatim>\<open>st.cache_data\<close> store per decorated function. The table is never written.
  A failing connection or driver and the line printed on connecting are outside the
  model.
\<close>

text \<open>The five statements, each with its bound parameters; the text of the third to fifth
  holds one placeholder per selected competition.\<close>

definition placeholders :: "string list \<Rightarrow> string" where
  "placeholders selected_comps = join '','' (replicate (length selected_comps) ''?'')"

datatype query =
    Select_latest_game_date
  | Select_competitions
  | Select_max_seasons string "string list"
  | Select_players string int "string list"
  | Select_player_data string int string "string list"

text \<open>What \<^verbatim>\<open>load_number_of_seasons\<close> returns: the empty list, or an integer.\<close>

datatype max_seasons = Empty_list | Max_seasons int

text \<open>A cache store: key, value and the time at which the entry expires.\<close>

type_synonym ('k, 'v) cache = "('k \<times> 'v \<times> nat) list"

record world =
  table :: dataframe
  engines :: nat
  issued :: "query list"
  latest_game_date_cache :: "(unit, nat option) cache"
  competitions_cache :: "(unit, string list) cache"
  number_of_seasons_cache :: "(string list, max_seasons) cache"
  players_cache :: "(int \<times> string list, string list) cache"
  player_data_cache :: "(int \<times> string option \<times> string list, dataframe) cache"

definition connect_to_sql_alchemy_server :: "world \<Rightarrow> world" where
  "connect_to_sql_alchemy_server w = w\<lparr>engines := Suc (engines w)\<rparr>"

text \<open>\<^verbatim>\<open>pd.read_sql\<close> sends the statement; its result is computed from the table below.\<close>

definition read_sql :: "query \<Rightarrow> world \<Rightarrow> world" where
  "read_sql q w = w\<lparr>issued := issued w @ [q]\<rparr>"

subsection \<open>Meaning of the SQL statements\<close>

text \<open>
  Strings are compared exactly; a comparison with NULL is not true; \<^verbatim>\<open>MAX\<close> skips NULLs
  and is NULL when nothing is left; rows come in table order (SQL leaves it open, and
  the program sorts or aggregates whatever it displays).
\<close>

definition in_competitions :: "string list \<Rightarrow> appearance \<Rightarrow> bool" where
  "in_competitions selected_comps r = (competition_name r \<in> set selected_comps)"

definition at_least_seasons :: "int \<Rightarrow> appearance \<Rightarrow> bool" where
  "at_least_seasons minimum_seasons r =
     (case number_of_seasons r of None \<Rightarrow> False | Some n \<Rightarrow> minimum_seasons \<le> n)"

definition sql_max :: "('a::linorder) list \<Rightarrow> 'a option" where
  "sql_max xs = (case xs of [] \<Rightarrow> None | x # ys \<Rightarrow> Some (fold max ys x))"

definition select_latest_game_date :: "dataframe \<Rightarrow> nat option" where
  "select_latest_game_date tbl = sql_max (map game_date tbl)"

definition select_competitions :: "dataframe \<Rightarrow> string list" where
  "select_competitions tbl = remdups (map competition_name tbl)"

definition select_max_seasons :: "dataframe \<Rightarrow> string list \<Rightarrow> int option" where
  "select_max_seasons tbl selected_comps =
     sql_max (dropna (map number_of_seasons (filter (in_competitions selected_comps) tbl)))"

definition select_players :: "dataframe \<Rightarrow> int \<Rightarrow> string list \<Rightarrow> string list" where
  "select_players tbl minimum_seasons selected_comps =
     remdups (map player_name
       (filter (\<lambda>r. at_least_seasons minimum_seasons r \<and> in_competitions selected_comps r) tbl))"

definition select_player_data :: "dataframe \<Rightarrow> int \<Rightarrow> string \<Rightarrow> string list \<Rightarrow> dataframe" where
  "select_player_data tbl minimum_seasons player selected_comps =
     filter (\<lambda>r. at_least_seasons minimum_seasons r \<and> player_name r = player \<and>
                 in_competitions selected_comps r) tbl"

subsection \<open>The functions as written\<close>

definition load_latest_game_date :: "world \<Rightarrow> nat option \<times> world" where
  "load_latest_game_date w =
     (let sql_engine = connect_to_sql_alchemy_server w;
          w' = read_sql Select_latest_game_date sql_engine
      in (select_latest_game_date (table w), w'))"

definition load_competitions :: "world \<Rightarrow> string list \<times> world" where
  "load_competitions w =
     (let sql_engine = connect_to_sql_alchemy_server w;
          w' = read_sql Select_competitions sql_engine
      in (select_competitions (table w), w'))"

text \<open>\<^verbatim>\<open>int(df.iloc[0]["max_seasons"])\<close> raises when the maximum is NULL.\<close>

definition load_number_of_seasons :: "string list \<Rightarrow> world \<Rightarrow> (failure + max_seasons) \<times> world" where
  "load_number_of_seasons selected_comps w =
     (if selected_comps = [] then (Inr Empty_list, w)
      else
        let sql_engine = connect_to_sql_alchemy_server w;
            w' = read_sql (Select_max_seasons (placeholders selected_comps) selected_comps) sql_engine
        in case select_max_seasons (table w) selected_comps of
             None \<Rightarrow> (Inl Int_of_null, w')
           | Some m \<Rightarrow> (Inr (Max_seasons m), w'))"

definition load_players :: "int \<Rightarrow> string list \<Rightarrow> world \<Rightarrow> string list \<times> world" where
  "load_players minimum_seasons selected_comps w =
     (if selected_comps = [] then ([], w)
      else
        let sql_engine = connect_to_sql_alchemy_server w;
            w' = read_sql (Select_players (placeholders selected_comps) minimum_seasons selected_comps)
                   sql_engine
        in (sort (select_players (table w) minimum_seasons selected_comps), w'))"

text \<open>\<^verbatim>\<open>not player\<close>: the player is \<^verbatim>\<open>None\<close> or the empty string.\<close>

definition not_player :: "string option \<Rightarrow> bool" where
  "not_player player = (case player of None \<Rightarrow> True | Some p \<Rightarrow> p = [])"

definition load_player_data :: "int \<Rightarrow> string option \<Rightarrow> string list \<Rightarrow> world \<Rightarrow> dataframe \<times> world" where
  "load_player_data minimum_seasons player selected_comps w =
     (case player of
        None \<Rightarrow> ([], w)
      | Some p \<Rightarrow>
          if p = [] \<or> selected_comps = [] then ([], w)
          else
            let sql_engine = connect_to_sql_alchemy_server w;
                w' = read_sql (Select_player_data (placeholders selected_comps) minimum_seasons p
                       selected_comps) sql_engine
            in (select_player_data (table w) minimum_seasons p selected_comps, w'))"

subsection \<open>The decorator \<^verbatim>\<open>@st.cache_data(ttl=600)\<close>\<close>

text \<open>
  A call whose arguments have an entry that has not expired returns the stored value and
  does nothing else. Any other call runs the function and, when it returns, stores the
  value for 600 time units; a raised exception is not stored.
\<close>

definition ttl :: nat where
  "ttl = 600"

definition cache_lookup :: "nat \<Rightarrow> ('k, 'v) cache \<Rightarrow> 'k \<Rightarrow> 'v option" where
  "cache_lookup now c k =
     (case map_of c k of
        None \<Rightarrow> None
      | Some (v, expires) \<Rightarrow> if now < expires then Some v else None)"

definition cache_store :: "nat \<Rightarrow> ('k, 'v) cache \<Rightarrow> 'k \<Rightarrow> 'v \<Rightarrow> ('k, 'v) cache" where
  "cache_store now c k v = (k, v, now + ttl) # c"

definition cached_load_latest_game_date :: "nat \<Rightarrow> world \<Rightarrow> nat option \<times> world" where
  "cached_load_latest_game_date now w =
     (case cache_lookup now (latest_game_date_cache w) () of
        Some v \<Rightarrow> (v, w)
      | None \<Rightarrow>
          (case load_latest_game_date w of
             (v, w') \<Rightarrow>
               (v, w'\<lparr>latest_game_date_cache := cache_store now (latest_game_date_cache w') () v\<rparr>)))"

definition cached_load_competitions :: "nat \<Rightarrow> world \<Rightarrow> string list \<times> world" where
  "cached_load_competitions now w =
     (case cache_lookup now (competitions_cache w) () of
        Some v \<Rightarrow> (v, w)
      | None \<Rightarrow>
          (case load_competitions w of
             (v, w') \<Rightarrow> (v, w'\<lparr>competitions_cache := cache_store now (competitions_cache w') () v\<rparr>)))"

definition cached_load_number_of_seasons ::
  "string list \<Rightarrow> nat \<Rightarrow> world \<Rightarrow> (failure + max_seasons) \<times> world" where
  "cached_load_number_of_seasons selected_comps now w =
     (case cache_lookup now (number_of_seasons_cache w) selected_comps of
        Some v \<Rightarrow> (Inr v, w)
      | None \<Rightarrow>
          (case load_number_of_seasons selected_comps w of
             (Inl e, w') \<Rightarrow> (Inl e, w')
           | (Inr v, w') \<Rightarrow>
               (Inr v, w'\<lparr>number_of_seasons_cache :=
                           cache_store now (number_of_seasons_cache w') selected_comps v\<rparr>)))"

definition cached_load_players :: "int \<Rightarrow> string list \<Rightarrow> nat \<Rightarrow> world \<Rightarrow> string list \<times> world" where
  "cached_load_players minimum_seasons selected_comps now w =
     (case cache_lookup now (players_cache w) (minimum_seasons, selected_comps) of
        Some v \<Rightarrow> (v, w)
      | None \<Rightarrow>
          (case load_players minimum_seasons selected_comps w of
             (v, w') \<Rightarrow>
               (v, w'\<lparr>players_cache :=
                        cache_store now (players_cache w') (minimum_seasons, selected_comps) v\<rparr>)))"

definition cached_load_player_data ::
  "int \<Rightarrow> string option \<Rightarrow> string list \<Rightarrow> nat \<Rightarrow> world \<Rightarrow> dataframe \<times> world" where
  "cached_load_player_data minimum_seasons player selected_comps now w =
     (case cache_lookup now (player_data_cache w) (minimum_seasons, player, selected_comps) of
        Some v \<Rightarrow> (v, w)
      | None \<Rightarrow>
          (case load_player_data minimum_seasons player selected_comps w of
             (v, w') \<Rightarrow>
               (v, w'\<lparr>player_data_cache :=
                        cache_store now (player_data_cache w')
                          (minimum_seasons, player, selected_comps) v\<rparr>)))"

section \<open>\<^verbatim>\<open>create_streamlit_app\<close>\<close>

text \<open>
  The widgets belong to the UI framework; what they return in one run is an input: the
  selected competitions, the slider value, the selected player (\<open>None\<close> when the
  select box has no option) and the selected seasons. A run happens at one time
  \<open>now\<close>. What the widgets themselves reject is outside the model.
\<close>

record ui =
  competitions :: "string list"
  minimum_seasons :: int
  player :: "string option"
  seasons :: "string list"

text \<open>What a run puts on the page below the filters.\<close>

datatype page =
    No_competition_error
  | No_player_error
  | No_data_warning
  | Player_overview overview

definition create_streamlit_app :: "ui \<Rightarrow> nat \<Rightarrow> world \<Rightarrow> (failure + page) \<times> world" where
  "create_streamlit_app u now w =
     (case cached_load_latest_game_date now w of
        (None, w1) \<Rightarrow> (Inl Strftime_of_null, w1)
      | (Some latest, w1) \<Rightarrow>
     (case cached_load_competitions now w1 of
        (options, w2) \<Rightarrow>
     if competitions u = [] then (Inr No_competition_error, w2)
     else
     (case cached_load_number_of_seasons (competitions u) now w2 of
        (Inl e, w3) \<Rightarrow> (Inl e, w3)
      | (Inr max_seasons, w3) \<Rightarrow>
     (case cached_load_players (minimum_seasons u) (competitions u) now w3 of
        (players, w4) \<Rightarrow>
     if not_player (player u) then (Inr No_player_error, w4)
     else
     (case cached_load_player_data (minimum_seasons u) (player u) (competitions u) now w4 of
        (player_df, w5) \<Rightarrow>
     if player_df = [] then (Inr No_data_warning, w5)
     else
       let final_df =
             (if seasons u \<noteq> [] then filter (\<lambda>r. season_name r \<in> set (seasons u)) player_df
              else player_df)
       in case aggregate final_df of
            Inl e \<Rightarrow> (Inl e, w5)
          | Inr ov \<Rightarrow> (Inr (Player_overview ov), w5))))))"

section \<open>Notions used to state the properties\<close>

text \<open>A value of a list that occurs there at least as often as every other value.\<close>

definition most_frequent :: "'a list \<Rightarrow> 'a \<Rightarrow> bool" where
  "most_frequent vs x = (x \<in> set vs \<and> (\<forall>v\<in>set vs. count_list vs v \<le> count_list vs x))"

text \<open>A row to build concrete inputs from.\<close>

definition john_doe :: appearance where
  "john_doe =
     \<lparr> player_name = ''John Doe'', competition_name = ''Champions League'',
       season_name = ''2015/2016'', team_name = ''A'', game_date = 0,
       nationality = Some ''Ireland'', player_position = Some ''FW'', shirt_number = Some 9,
       minutes_played = Some 90, goals = Some 0, assists = Some 0, yellow_cards = Some 0,
       red_cards = Some 0, number_of_seasons = Some 3 \<rparr>"

text \<open>
  The start year of a season name, read as the program reads it. A season name starts
  with its year when its first four characters are digits, as in \<^verbatim>\<open>2015/2016\<close>. The rows
  of the dense season table are stated with them.
\<close>

definition start_year :: "string \<Rightarrow> int" where
  "start_year s = (case py_int (take 4 s) of Inl e \<Rightarrow> 0 | Inr y \<Rightarrow> y)"

definition starts_with_year :: "string \<Rightarrow> bool" where
  "starts_with_year s = (4 \<le> length s \<and> list_all is_digit (take 4 s))"

definition season_row :: "dataframe \<Rightarrow> int \<Rightarrow> string \<times> int \<times> int" where
  "season_row df y =
     (season_label y,
      int (length (filter (\<lambda>r. start_year (season_name r) = y) df)),
      sum_skipna (map goals (filter (\<lambda>r. start_year (season_name r) = y) df)))"

definition first_start_year :: "dataframe \<Rightarrow> int" where
  "first_start_year df = Min (set (map (\<lambda>r. start_year (season_name r)) df))"

definition last_start_year :: "dataframe \<Rightarrow> int" where
  "last_start_year df = Max (set (map (\<lambda>r. start_year (season_name r)) df))"

text \<open>
  The year written at the head of a season name, read off the characters themselves and
  not through the program's conversion: the digit of a character is its place in
  \<^verbatim>\<open>0123456789\<close>, and four digits \<open>a b c d\<close> write the year \<open>1000 a + 100 b + 10 c + d\<close>.
  The first year of a team is the least year written on its rows.
\<close>

definition decimal_digit :: "char \<Rightarrow> nat" where
  "decimal_digit c = length (takeWhile (\<lambda>d. d \<noteq> c) ''0123456789'')"

definition year_written :: "string \<Rightarrow> bool" where
  "year_written s = (4 \<le> length s \<and> list_all (\<lambda>c. c \<in> set ''0123456789'') (take 4 s))"

definition written_year :: "string \<Rightarrow> int" where
  "written_year s =
     (case take 4 s of
        [a, b, c, d] \<Rightarrow>
          int (1000 * decimal_digit a + 100 * decimal_digit b + 10 * decimal_digit c
               + decimal_digit d)
      | _ \<Rightarrow> 0)"

definition team_first_year :: "dataframe \<Rightarrow> string \<Rightarrow> int" where
  "team_first_year df t =
     Min (set (map (\<lambda>r. written_year (season_name r)) (filter (\<lambda>r. team_name r = t) df)))"

text \<open>
  The stores agree with the table when every stored value is what its function returns
  on the table as it is now; this holds for empty stores and as long as the table has not
  changed since the values were stored. \<open>page_for\<close> is the page of a run whose functions
  all read the table.
\<close>

definition cache_ok :: "world \<Rightarrow> bool" where
  "cache_ok w =
     (list_all (\<lambda>(k, v, expires). v = fst (load_latest_game_date w)) (latest_game_date_cache w) \<and>
      list_all (\<lambda>(k, v, expires). v = fst (load_competitions w)) (competitions_cache w) \<and>
      list_all (\<lambda>(k, v, expires). fst (load_number_of_seasons k w) = Inr v)
        (number_of_seasons_cache w) \<and>
      list_all (\<lambda>((m, c), v, expires). v = fst (load_players m c w)) (players_cache w) \<and>
      list_all (\<lambda>((m, p, c), v, expires). v = fst (load_player_data m p c w))
        (player_data_cache w))"

definition empty_world :: "dataframe \<Rightarrow> world" where
  "empty_world tbl =
     \<lparr> table = tbl, engines = 0, issued = [], latest_game_date_cache = [],
       competitions_cache = [], number_of_seasons_cache = [], players_cache = [],
       player_data_cache = [] \<rparr>"

definition page_for :: "ui \<Rightarrow> dataframe \<Rightarrow> failure + page" where
  "page_for u tbl =
     (case select_latest_game_date tbl of
        None \<Rightarrow> Inl Strftime_of_null
      | Some latest \<Rightarrow>
          if competitions u = [] then Inr No_competition_error
          else
            (case select_max_seasons tbl (competitions u) of
               None \<Rightarrow> Inl Int_of_null
             | Some max_seasons \<Rightarrow>
                 (case player u of
                    None \<Rightarrow> Inr No_player_error
                  | Some p \<Rightarrow>
                      if p = [] then Inr No_player_error
                      else
                        let player_df = select_player_data tbl (minimum_seasons u) p (competitions u)
                        in if player_df = [] then Inr No_data_warning
                           else
                             (case aggregate
                                (if seasons u \<noteq> []
                                 then filter (\<lambda>r. season_name r \<in> set (seasons u)) player_df
                                 else player_df) of
                                Inl e \<Rightarrow> Inl e
                              | Inr ov \<Rightarrow> Inr (Player_overview ov)))))"

section \<open>The mode of a column\<close>

lemma fold_max_ge: "(a::nat) \<le> fold max ns a \<and> (\<forall>x\<in>set ns. x \<le> fold max ns a)"
proof (induction ns arbitrary: a)
  case Nil
  show ?case by simp
next
  case (Cons n ns)
  from Cons.IH [of "max n a"] show ?case by auto
qed

lemma fold_max_in: "fold max ns (a::nat) = a \<or> fold max ns a \<in> set ns"
proof (induction ns arbitrary: a)
  case Nil
  show ?case by simp
next
  case (Cons n ns)
  from Cons.IH [of "max n a"] show ?case by (auto simp: max_def split: if_splits)
qed

lemma top_count:
  assumes "vs \<noteq> []"
  shows "\<exists>x\<in>set vs. count_list vs x = fold max (map (count_list vs) vs) 0"
proof -
  obtain v where v: "v \<in> set vs" using assms by (cases vs) auto
  then have "0 < count_list vs v" using count_list_0_iff [of vs v] by (cases "count_list vs v") auto
  moreover have "count_list vs v \<le> fold max (map (count_list vs) vs) 0"
    using fold_max_ge [of 0 "map (count_list vs) vs"] v by auto
  ultimately have "fold max (map (count_list vs) vs) 0 \<noteq> 0" by simp
  with fold_max_in [of "map (count_list vs) vs" 0] show ?thesis by auto
qed

lemma set_series_mode:
  "set (series_mode xs) = {x. most_frequent (dropna xs) x}"
proof -
  let ?vs = "dropna xs"
  let ?top = "fold max (map (count_list ?vs) ?vs) 0"
  have ge: "\<And>v. v \<in> set ?vs \<Longrightarrow> count_list ?vs v \<le> ?top"
    using fold_max_ge [of 0 "map (count_list ?vs) ?vs"] by auto
  have "set (series_mode xs) = {x \<in> set ?vs. count_list ?vs x = ?top}"
    by (simp add: series_mode_def Let_def)
  also have "\<dots> = {x. most_frequent ?vs x}"
  proof (cases "?vs = []")
    case True
    then show ?thesis by (simp add: most_frequent_def)
  next
    case False
    from top_count [OF False] obtain m where m: "m \<in> set ?vs" "count_list ?vs m = ?top" by auto
    show ?thesis
    proof (rule set_eqI, simp add: most_frequent_def, rule iffI)
      fix x assume "x \<in> set ?vs \<and> count_list ?vs x = ?top"
      then show "x \<in> set ?vs \<and> (\<forall>v\<in>set ?vs. count_list ?vs v \<le> count_list ?vs x)"
        using ge by auto
    next
      fix x assume a: "x \<in> set ?vs \<and> (\<forall>v\<in>set ?vs. count_list ?vs v \<le> count_list ?vs x)"
      then have "?top \<le> count_list ?vs x" using m by auto
      moreover have "count_list ?vs x \<le> ?top" using a ge by auto
      ultimately show "x \<in> set ?vs \<and> count_list ?vs x = ?top" using a by auto
    qed
  qed
  finally show ?thesis .
qed

lemma series_mode_Nil_iff: "series_mode xs = [] \<longleftrightarrow> dropna xs = []"
proof
  assume "series_mode xs = []"
  then have e: "{x. most_frequent (dropna xs) x} = {}" using set_series_mode [of xs] by simp
  show "dropna xs = []"
  proof (rule ccontr)
    assume ne: "dropna xs \<noteq> []"
    from top_count [OF ne] obtain m where m: "m \<in> set (dropna xs)"
      "count_list (dropna xs) m = fold max (map (count_list (dropna xs)) (dropna xs)) 0" by auto
    have "most_frequent (dropna xs) m"
      unfolding most_frequent_def using m fold_max_ge [of 0 "map (count_list (dropna xs)) (dropna xs)"] by auto
    with e show False by auto
  qed
next
  assume "dropna xs = []"
  then show "series_mode xs = []" by (simp add: series_mode_def)
qed

lemma sorted_series_mode: "sorted (series_mode xs)"
  by (simp add: series_mode_def Let_def)

lemma series_mode_Cons:
  assumes "series_mode xs = m # ms"
  shows "most_frequent (dropna xs) m \<and> (\<forall>x. most_frequent (dropna xs) x \<longrightarrow> m \<le> x)"
proof -
  have s: "set (m # ms) = {x. most_frequent (dropna xs) x}" using set_series_mode [of xs] assms by simp
  have "sorted (m # ms)" using sorted_series_mode [of xs] assms by simp
  then have "\<forall>x\<in>set (m # ms). m \<le> x" by auto
  with s show ?thesis by auto
qed

section \<open>The sentinel and the columns\<close>

lemma dropna_map_replace: "dropna (map replace_sentinel xs) = filter (\<lambda>v. v \<noteq> - 1) (dropna xs)"
proof (induction xs)
  case Nil
  show ?case by simp
next
  case (Cons x xs)
  then show ?case by (cases x) (simp_all add: replace_sentinel_def)
qed

lemma dropna_map_filter:
  "dropna (map f (filter (\<lambda>r. f r \<noteq> Some a) rows)) = filter (\<lambda>v. v \<noteq> a) (dropna (map f rows))"
proof (induction rows)
  case Nil
  show ?case by simp
next
  case (Cons r rows)
  then show ?case by (cases "f r") simp_all
qed

lemma dropna_filter_Some: "dropna (filter (\<lambda>p. p \<noteq> Some a) xs) = filter (\<lambda>p. p \<noteq> a) (dropna xs)"
  using dropna_map_filter [of "\<lambda>x. x" a xs] by simp

lemma dropna_filter_not_None: "dropna (filter (\<lambda>n. n \<noteq> None) xs) = dropna xs"
proof (induction xs)
  case Nil
  show ?case by simp
next
  case (Cons x xs)
  then show ?case by (cases x) simp_all
qed

lemma dropna_append: "dropna (xs @ ys) = dropna xs @ dropna ys"
proof (induction xs)
  case Nil
  show ?case by simp
next
  case (Cons x xs)
  then show ?case by (cases x) simp_all
qed

lemma series_mode_dropna: "dropna xs = dropna ys \<Longrightarrow> series_mode xs = series_mode ys"
  by (simp add: series_mode_def)

lemma replaced_columns:
  "map goals (replace_df rows) = map replace_sentinel (map goals rows)"
  "map assists (replace_df rows) = map replace_sentinel (map assists rows)"
  "map yellow_cards (replace_df rows) = map replace_sentinel (map yellow_cards rows)"
  "map red_cards (replace_df rows) = map replace_sentinel (map red_cards rows)"
  "map minutes_played (replace_df rows) = map replace_sentinel (map minutes_played rows)"
  "map shirt_number (replace_df rows) = map replace_sentinel (map shirt_number rows)"
  "map number_of_seasons (replace_df rows) = map replace_sentinel (map number_of_seasons rows)"
  by (simp_all add: replace_df_def replace_row_def)

lemma kept_columns:
  "map nationality (replace_df rows) = map nationality rows"
  "map player_position (replace_df rows) = map player_position rows"
  "map season_name (replace_df rows) = map season_name rows"
  "map team_name (replace_df rows) = map team_name rows"
  "map player_name (replace_df rows) = map player_name rows"
  by (simp_all add: replace_df_def replace_row_def)

lemma main_position_cases:
  "(let ps = filter (\<lambda>p. p \<noteq> ''N/A'') (dropna (map player_position rows)) in
    if ps = [] then main_position (replace_df rows) = ''Unknown''
    else most_frequent ps (main_position (replace_df rows)) \<and>
         (\<forall>q. most_frequent ps q \<longrightarrow> main_position (replace_df rows) \<le> q))"
proof -
  let ?col = "filter (\<lambda>p. p \<noteq> Some ''N/A'') (map player_position rows)"
  let ?ps = "filter (\<lambda>p. p \<noteq> ''N/A'') (dropna (map player_position rows))"
  have d: "dropna ?col = ?ps" by (rule dropna_filter_Some)
  show ?thesis
  proof (cases "series_mode ?col")
    case Nil
    then have "?ps = []" using series_mode_Nil_iff [of ?col] d by simp
    with Nil show ?thesis by (simp add: main_position_def kept_columns)
  next
    case (Cons m ms)
    then have "?ps \<noteq> []" using series_mode_Nil_iff [of ?col] d by simp
    moreover have "main_position (replace_df rows) = m"
      using Cons by (simp add: main_position_def kept_columns)
    ultimately show ?thesis using series_mode_Cons [OF Cons] d by (simp add: Let_def)
  qed
qed

lemma shirt_number_cases:
  "(let ns = filter (\<lambda>n. n \<noteq> - 1) (dropna (map shirt_number rows)) in
    if ns = [] then most_used_shirt_number (replace_df rows) = Txt ''Unknown''
    else \<exists>n. most_used_shirt_number (replace_df rows) = Num n \<and> most_frequent ns n \<and>
         (\<forall>q. most_frequent ns q \<longrightarrow> n \<le> q))"
proof -
  let ?col = "filter (\<lambda>n. n \<noteq> None) (map replace_sentinel (map shirt_number rows))"
  let ?ns = "filter (\<lambda>n. n \<noteq> - 1) (dropna (map shirt_number rows))"
  have d: "dropna ?col = ?ns" by (simp only: dropna_filter_not_None dropna_map_replace)
  show ?thesis
  proof (cases "series_mode ?col")
    case Nil
    then have "?ns = []" using series_mode_Nil_iff [of ?col] d by simp
    with Nil show ?thesis by (simp add: most_used_shirt_number_def replaced_columns)
  next
    case (Cons m ms)
    then have "?ns \<noteq> []" using series_mode_Nil_iff [of ?col] d by simp
    moreover have "most_used_shirt_number (replace_df rows) = Num m"
      using Cons by (simp add: most_used_shirt_number_def replaced_columns)
    ultimately show ?thesis using series_mode_Cons [OF Cons] d by (simp add: Let_def)
  qed
qed

section \<open>Claims about the summary statistics\<close>

text \<open>
  C7 (unknown fallbacks). For every filtered row set, the main position is a most frequent
  position value among those that are non-null and different from \<^verbatim>\<open>"N/A"\<close>, and it is
  \<^verbatim>\<open>"Unknown"\<close> when there is no such value; the shirt number is a most frequent shirt
  number among the non-null ones (a -1 has become null by then), and it is
  \<^verbatim>\<open>"Unknown"\<close> when there is none.
\<close>

theorem unknown_fallbacks:
  "(let ps = filter (\<lambda>p. p \<noteq> ''N/A'') (dropna (map player_position rows)) in
    if ps = [] then main_position (replace_df rows) = ''Unknown''
    else most_frequent ps (main_position (replace_df rows)))
   \<and>
   (let ns = filter (\<lambda>n. n \<noteq> - 1) (dropna (map shirt_number rows)) in
    if ns = [] then most_used_shirt_number (replace_df rows) = Txt ''Unknown''
    else \<exists>n. most_used_shirt_number (replace_df rows) = Num n \<and> most_frequent ns n)"
proof -
  have "\<exists>n. P n \<and> Q n" if "\<exists>n. P n \<and> Q n \<and> R n" for P Q R :: "int \<Rightarrow> bool"
    using that by blast
  then show ?thesis
    using main_position_cases [of rows] shirt_number_cases [of rows]
    by (simp add: Let_def split: if_splits)
qed

theorem unknown_fallbacks_witness:
  "main_position (replace_df
     [john_doe\<lparr>player_position := Some ''N/A''\<rparr>,
      john_doe\<lparr>player_position := Some ''MF'', shirt_number := Some (- 1)\<rparr>,
      john_doe,
      john_doe\<lparr>player_position := None, shirt_number := Some 7\<rparr>,
      john_doe]) = ''FW''
   \<and> most_used_shirt_number (replace_df
     [john_doe\<lparr>player_position := Some ''N/A''\<rparr>,
      john_doe\<lparr>player_position := Some ''MF'', shirt_number := Some (- 1)\<rparr>,
      john_doe,
      john_doe\<lparr>player_position := None, shirt_number := Some 7\<rparr>,
      john_doe]) = Num 9
   \<and> main_position (replace_df
     [john_doe\<lparr>player_position := Some ''N/A'', shirt_number := Some (- 1)\<rparr>,
      john_doe\<lparr>player_position := None, shirt_number := None\<rparr>]) = ''Unknown''
   \<and> most_used_shirt_number (replace_df
     [john_doe\<lparr>player_position := Some ''N/A'', shirt_number := Some (- 1)\<rparr>,
      john_doe\<lparr>player_position := None, shirt_number := None\<rparr>]) = Txt ''Unknown''"
  using
    unknown_fallbacks [of "[john_doe\<lparr>player_position := Some ''N/A''\<rparr>,
      john_doe\<lparr>player_position := Some ''MF'', shirt_number := Some (- 1)\<rparr>,
      john_doe,
      john_doe\<lparr>player_position := None, shirt_number := Some 7\<rparr>,
      john_doe]"]
    unknown_fallbacks [of "[john_doe\<lparr>player_position := Some ''N/A'', shirt_number := Some (- 1)\<rparr>,
      john_doe\<lparr>player_position := None, shirt_number := None\<rparr>]"]
  by (auto simp add: john_doe_def most_frequent_def)

lemma nationality_mode_cases:
  "(let ns = dropna (map nationality rows) in
    if ns = [] then nationality_mode (replace_df rows) = Inl Iat_out_of_bounds
    else \<exists>v. nationality_mode (replace_df rows) = Inr v \<and> most_frequent ns v)"
proof (cases "series_mode (map nationality rows)")
  case Nil
  then have "dropna (map nationality rows) = []" using series_mode_Nil_iff by blast
  with Nil show ?thesis by (simp add: nationality_mode_def kept_columns iat0_def)
next
  case (Cons m ms)
  then have "dropna (map nationality rows) \<noteq> []"
    using series_mode_Nil_iff [of "map nationality rows"] by simp
  moreover have "nationality_mode (replace_df rows) = Inr m"
    using Cons by (simp add: nationality_mode_def kept_columns iat0_def)
  ultimately show ?thesis using series_mode_Cons [OF Cons] by (simp add: Let_def)
qed

lemma number_of_seasons_mode_cases:
  "(let ks = filter (\<lambda>k. k \<noteq> - 1) (dropna (map number_of_seasons rows)) in
    if ks = [] then number_of_seasons_mode (replace_df rows) = Inl Iat_out_of_bounds
    else \<exists>k. number_of_seasons_mode (replace_df rows) = Inr k \<and> most_frequent ks k)"
proof -
  let ?col = "map replace_sentinel (map number_of_seasons rows)"
  let ?ks = "filter (\<lambda>k. k \<noteq> - 1) (dropna (map number_of_seasons rows))"
  have d: "dropna ?col = ?ks" by (rule dropna_map_replace)
  show ?thesis
  proof (cases "series_mode ?col")
    case Nil
    then have "?ks = []" using series_mode_Nil_iff [of ?col] d by simp
    with Nil show ?thesis by (simp add: number_of_seasons_mode_def replaced_columns iat0_def)
  next
    case (Cons m ms)
    then have "?ks \<noteq> []" using series_mode_Nil_iff [of ?col] d by simp
    moreover have "number_of_seasons_mode (replace_df rows) = Inr m"
      using Cons by (simp add: number_of_seasons_mode_def replaced_columns iat0_def)
    ultimately show ?thesis using series_mode_Cons [OF Cons] d by (simp add: Let_def)
  qed
qed

lemma aggregate_nationality_fails:
  "nationality_mode (replace_df rows) = Inl e \<Longrightarrow> aggregate rows = Inl e"
  by (simp add: aggregate_def Let_def)

lemma aggregate_number_of_seasons_fails:
  assumes "number_of_seasons_mode (replace_df rows) = Inl Iat_out_of_bounds"
  shows "aggregate rows = Inl Iat_out_of_bounds"
proof (cases "nationality_mode (replace_df rows)")
  case (Inl e)
  then have "e = Iat_out_of_bounds"
    by (auto simp: nationality_mode_def iat0_def split: list.splits)
  with Inl show ?thesis by (simp add: aggregate_nationality_fails)
next
  case (Inr v)
  with assms show ?thesis by (simp add: aggregate_def Let_def)
qed

text \<open>
  C10 (no fallback for nationality and number of seasons). Both statistics are the first
  element of the mode of their column. When the column has no non-null value (for the
  number of seasons: none that is neither null nor the sentinel -1) the mode is empty,
  the read fails and so does the whole aggregation; otherwise the statistic is a most
  frequent non-null value. No \<^verbatim>\<open>"Unknown"\<close> is produced here.
\<close>

theorem mode_without_fallback:
  "(let ns = dropna (map nationality rows) in
    if ns = []
    then nationality_mode (replace_df rows) = Inl Iat_out_of_bounds \<and>
         aggregate rows = Inl Iat_out_of_bounds
    else \<exists>v. nationality_mode (replace_df rows) = Inr v \<and> most_frequent ns v)
   \<and>
   (let ks = filter (\<lambda>k. k \<noteq> - 1) (dropna (map number_of_seasons rows)) in
    if ks = []
    then number_of_seasons_mode (replace_df rows) = Inl Iat_out_of_bounds \<and>
         aggregate rows = Inl Iat_out_of_bounds
    else \<exists>k. number_of_seasons_mode (replace_df rows) = Inr k \<and> most_frequent ks k)"
  using nationality_mode_cases [of rows] number_of_seasons_mode_cases [of rows]
    aggregate_nationality_fails [of rows Iat_out_of_bounds]
    aggregate_number_of_seasons_fails [of rows]
  by (simp add: Let_def split: if_splits)

theorem mode_without_fallback_witness:
  "nationality_mode (replace_df [john_doe\<lparr>nationality := None\<rparr>]) = Inl Iat_out_of_bounds
   \<and> aggregate [john_doe\<lparr>nationality := None\<rparr>] = Inl Iat_out_of_bounds
   \<and> number_of_seasons_mode (replace_df [john_doe\<lparr>nationality := None\<rparr>]) = Inr 3
   \<and> number_of_seasons_mode (replace_df [john_doe\<lparr>number_of_seasons := Some (- 1)\<rparr>])
       = Inl Iat_out_of_bounds
   \<and> aggregate [john_doe\<lparr>number_of_seasons := Some (- 1)\<rparr>] = Inl Iat_out_of_bounds
   \<and> nationality_mode (replace_df [john_doe\<lparr>number_of_seasons := Some (- 1)\<rparr>]) = Inr ''Ireland''"
  using mode_without_fallback [of "[john_doe\<lparr>nationality := None\<rparr>]"]
    mode_without_fallback [of "[john_doe\<lparr>number_of_seasons := Some (- 1)\<rparr>]"]
  by (auto simp add: john_doe_def most_frequent_def)

lemma sum_skipna_replace:
  "sum_skipna (map replace_sentinel xs) = sum_list (filter (\<lambda>v. v \<noteq> - 1) (dropna xs))"
  by (simp add: sum_skipna_def dropna_map_replace)

lemma filter_replace_df:
  "filter (\<lambda>r. season_name r = s) (replace_df rows) =
   replace_df (filter (\<lambda>r. season_name r = s) rows)"
  by (simp add: replace_df_def replace_row_def filter_map comp_def)

lemma group_seasons_replace:
  "group_seasons (replace_df rows) =
   map (\<lambda>s. (s, int (length (filter (\<lambda>r. season_name r = s) rows)),
               sum_list (filter (\<lambda>v. v \<noteq> - 1)
                 (dropna (map goals (filter (\<lambda>r. season_name r = s) rows))))))
     (sort (remdups (map season_name rows)))"
proof -
  have "length (replace_df xs) = length xs" for xs by (simp add: replace_df_def)
  then show ?thesis
    by (simp add: group_seasons_def filter_replace_df replaced_columns kept_columns
        sum_skipna_replace del: map_map)
qed

lemma shirt_number_without_sentinel:
  "most_used_shirt_number (replace_df rows) =
   most_used_shirt_number (filter (\<lambda>r. shirt_number r \<noteq> Some (- 1)) rows)"
proof -
  have "series_mode (filter (\<lambda>n. n \<noteq> None) (map replace_sentinel (map shirt_number rows))) =
        series_mode (filter (\<lambda>n. n \<noteq> None)
          (map shirt_number (filter (\<lambda>r. shirt_number r \<noteq> Some (- 1)) rows)))"
    by (rule series_mode_dropna)
      (simp only: dropna_filter_not_None dropna_map_replace dropna_map_filter)
  then show ?thesis by (simp add: most_used_shirt_number_def replaced_columns)
qed

lemma number_of_seasons_without_sentinel:
  "number_of_seasons_mode (replace_df rows) =
   number_of_seasons_mode (filter (\<lambda>r. number_of_seasons r \<noteq> Some (- 1)) rows)"
proof -
  have "series_mode (map replace_sentinel (map number_of_seasons rows)) =
        series_mode (map number_of_seasons
          (filter (\<lambda>r. number_of_seasons r \<noteq> Some (- 1)) rows))"
    by (rule series_mode_dropna) (simp only: dropna_map_replace dropna_map_filter)
  then show ?thesis by (simp add: number_of_seasons_mode_def replaced_columns)
qed

lemma goals_sentinel_row:
  "total_goals (replace_df (xs @ r\<lparr>goals := Some (- 1)\<rparr> # ys)) = total_goals (replace_df (xs @ ys))"
  by (simp add: total_goals_def replace_df_def replace_row_def sum_skipna_def dropna_append
      replace_sentinel_def)

text \<open>
  C2 (sentinel handling). After the replacement every -1 of a numeric column is null:
  each total is the sum of the values of its column that are neither null nor -1, so a
  row whose goals are -1 adds nothing to the goal sum; the goals of the season table are
  summed in the same way; and the two modes over numeric columns (shirt number, number
  of seasons) are the modes over the rows whose value is not -1, hence never -1.
\<close>

theorem sentinel_handling:
  "total_goals (replace_df rows) = sum_list (filter (\<lambda>v. v \<noteq> - 1) (dropna (map goals rows)))
   \<and> total_assists (replace_df rows) = sum_list (filter (\<lambda>v. v \<noteq> - 1) (dropna (map assists rows)))
   \<and> total_yellows (replace_df rows) =
       sum_list (filter (\<lambda>v. v \<noteq> - 1) (dropna (map yellow_cards rows)))
   \<and> total_reds (replace_df rows) = sum_list (filter (\<lambda>v. v \<noteq> - 1) (dropna (map red_cards rows)))
   \<and> total_minutes_played (replace_df rows) =
       sum_list (filter (\<lambda>v. v \<noteq> - 1) (dropna (map minutes_played rows)))
   \<and> total_goals (replace_df (xs @ r\<lparr>goals := Some (- 1)\<rparr> # ys)) = total_goals (replace_df (xs @ ys))
   \<and> group_seasons (replace_df rows) =
       map (\<lambda>s. (s, int (length (filter (\<lambda>r. season_name r = s) rows)),
                   sum_list (filter (\<lambda>v. v \<noteq> - 1)
                     (dropna (map goals (filter (\<lambda>r. season_name r = s) rows))))))
         (sort (remdups (map season_name rows)))
   \<and> most_used_shirt_number (replace_df rows) =
       most_used_shirt_number (filter (\<lambda>r. shirt_number r \<noteq> Some (- 1)) rows)
   \<and> most_used_shirt_number (replace_df rows) \<noteq> Num (- 1)
   \<and> number_of_seasons_mode (replace_df rows) =
       number_of_seasons_mode (filter (\<lambda>r. number_of_seasons r \<noteq> Some (- 1)) rows)
   \<and> number_of_seasons_mode (replace_df rows) \<noteq> Inr (- 1)"
proof -
  have shirt: "most_used_shirt_number (replace_df rows) \<noteq> Num (- 1)"
    using shirt_number_cases [of rows]
    by (auto simp: Let_def most_frequent_def split: if_splits)
  have seasons: "number_of_seasons_mode (replace_df rows) \<noteq> Inr (- 1)"
    using number_of_seasons_mode_cases [of rows]
    by (auto simp: Let_def most_frequent_def split: if_splits)
  have sums:
    "total_goals (replace_df rows) = sum_list (filter (\<lambda>v. v \<noteq> - 1) (dropna (map goals rows)))"
    "total_assists (replace_df rows) = sum_list (filter (\<lambda>v. v \<noteq> - 1) (dropna (map assists rows)))"
    "total_yellows (replace_df rows) =
       sum_list (filter (\<lambda>v. v \<noteq> - 1) (dropna (map yellow_cards rows)))"
    "total_reds (replace_df rows) = sum_list (filter (\<lambda>v. v \<noteq> - 1) (dropna (map red_cards rows)))"
    "total_minutes_played (replace_df rows) =
       sum_list (filter (\<lambda>v. v \<noteq> - 1) (dropna (map minutes_played rows)))"
    by (simp_all only: total_goals_def total_assists_def total_yellows_def total_reds_def
        total_minutes_played_def replaced_columns sum_skipna_replace)
  show ?thesis
    by (intro conjI sums goals_sentinel_row group_seasons_replace shirt seasons
        shirt_number_without_sentinel number_of_seasons_without_sentinel)
qed

theorem sentinel_handling_witness:
  "total_goals (replace_df [john_doe\<lparr>goals := Some 2\<rparr>, john_doe\<lparr>goals := Some (- 1)\<rparr>,
       john_doe\<lparr>goals := None\<rparr>]) = 2
   \<and> most_used_shirt_number (replace_df [john_doe\<lparr>shirt_number := Some (- 1)\<rparr>,
       john_doe\<lparr>shirt_number := Some (- 1)\<rparr>, john_doe\<lparr>shirt_number := Some 0\<rparr>]) = Num 0"
proof -
  have "most_used_shirt_number [john_doe\<lparr>shirt_number := Some 0\<rparr>] = Num 0"
    by (simp add: most_used_shirt_number_def series_mode_def john_doe_def)
  then show ?thesis
    using sentinel_handling [of "[john_doe\<lparr>goals := Some 2\<rparr>, john_doe\<lparr>goals := Some (- 1)\<rparr>,
        john_doe\<lparr>goals := None\<rparr>]"]
      sentinel_handling [of "[john_doe\<lparr>shirt_number := Some (- 1)\<rparr>,
        john_doe\<lparr>shirt_number := Some (- 1)\<rparr>, john_doe\<lparr>shirt_number := Some 0\<rparr>]"]
    by (simp add: john_doe_def)
qed

lemma label_2015: "season_label 2015 = ''2015/2016''" by code_simp
lemma label_2016: "season_label 2016 = ''2016/2017''" by code_simp
lemma label_2017: "season_label 2017 = ''2017/2018''" by code_simp
lemma int_2015: "py_int ''2015'' = Inr 2015" by code_simp
lemma int_2017: "py_int ''2017'' = Inr 2017" by code_simp

lemmas aggregate_defs =
  aggregate_def nationality_mode_def number_of_seasons_mode_def teams_def team_order_def
  first_seasons_def season_stats_def group_seasons_def merge_year_def main_position_def
  most_used_shirt_number_def total_appearances_def total_goals_def total_assists_def
  total_yellows_def total_reds_def total_minutes_played_def sum_skipna_def series_mode_def
  iat0_def replace_df_def replace_row_def replace_sentinel_def

lemma scenario_season_stats:
  "season_stats (replace_df
     [r1\<lparr>season_name := ''2015/2016'', goals := Some 2\<rparr>,
      r2\<lparr>season_name := ''2017/2018'', goals := Some (- 1)\<rparr>]) =
   Inr [(''2015/2016'', 1, 2), (''2016/2017'', 0, 0), (''2017/2018'', 1, 0)]"
  by (simp add: season_stats_def group_seasons_def replace_df_def replace_row_def
      replace_sentinel_def sum_skipna_def int_2015 int_2017 merge_year_def
      label_2015 label_2016 label_2017)


lemma scenario_overview:
  "aggregate [john_doe\<lparr>season_name := ''2015/2016'', goals := Some 2\<rparr>,
              john_doe\<lparr>season_name := ''2017/2018'', goals := Some (- 1)\<rparr>] =
   Inr \<lparr> Number_of_seasons = 3, Appearances = 2, Goals = 2, Assists = 0,
         Nationality = ''Ireland'', Position = ''FW'', Most_used_shirt_number = Num 9,
         Yellow_Cards = 0, Red_Cards = 0, Total_minutes_played = 180,
         Teams_played_for = ''A'',
         Season_table = [(''2015/2016'', 1, 2), (''2016/2017'', 0, 0), (''2017/2018'', 1, 0)] \<rparr>"
  by (simp add: aggregate_defs john_doe_def int_2015 int_2017 label_2015 label_2016 label_2017)

lemma aggregate_fields:
  assumes "aggregate rows = Inr ov"
  shows "Appearances ov = total_appearances (replace_df rows)"
    and "Goals ov = total_goals (replace_df rows)"
    and "season_stats (replace_df rows) = Inr (Season_table ov)"
    and "teams (replace_df rows) = Inr (Teams_played_for ov)"
  using assms by (auto simp: aggregate_def Let_def split: sum.splits)

text \<open>
  C3 (end-to-end scenario). For two rows, one of season 2015/2016 with 2 goals and one of
  season 2017/2018 with goals -1, whatever their other columns: 2 appearances, 2 goals
  in total, and a season table of three rows, 2015/2016, the zero-filled 2016/2017 and
  2017/2018, with the goals 2, 0, 0. Whenever the aggregation returns an overview, these
  are its appearances, goals and season table.
\<close>

theorem end_to_end_scenario:
  "(let rows = [r1\<lparr>season_name := ''2015/2016'', goals := Some 2\<rparr>,
                r2\<lparr>season_name := ''2017/2018'', goals := Some (- 1)\<rparr>];
        final_df = replace_df rows
    in total_appearances final_df = 2
       \<and> total_goals final_df = 2
       \<and> season_stats final_df =
           Inr [(''2015/2016'', 1, 2), (''2016/2017'', 0, 0), (''2017/2018'', 1, 0)]
       \<and> (\<forall>ov. aggregate rows = Inr ov \<longrightarrow>
             Appearances ov = 2 \<and> Goals ov = 2 \<and>
             Season_table ov = [(''2015/2016'', 1, 2), (''2016/2017'', 0, 0), (''2017/2018'', 1, 0)]
             \<and> map (\<lambda>(s, a, g). g) (Season_table ov) = [2, 0, 0]))"
proof -
  let ?rows = "[r1\<lparr>season_name := ''2015/2016'', goals := Some 2\<rparr>,
                r2\<lparr>season_name := ''2017/2018'', goals := Some (- 1)\<rparr>]"
  have a: "total_appearances (replace_df ?rows) = 2"
    by (simp add: total_appearances_def replace_df_def)
  have g: "total_goals (replace_df ?rows) = 2"
    by (simp add: total_goals_def replace_df_def replace_row_def replace_sentinel_def
        sum_skipna_def)
  note t = scenario_season_stats [of r1 r2]
  have "Appearances ov = 2 \<and> Goals ov = 2 \<and>
        Season_table ov = [(''2015/2016'', 1, 2), (''2016/2017'', 0, 0), (''2017/2018'', 1, 0)]
        \<and> map (\<lambda>(s, a, g). g) (Season_table ov) = [2, 0, 0]"
    if "aggregate ?rows = Inr ov" for ov
  proof -
    have "Season_table ov = [(''2015/2016'', 1, 2), (''2016/2017'', 0, 0), (''2017/2018'', 1, 0)]"
      using aggregate_fields(3) [OF that] t by simp
    then show ?thesis using aggregate_fields(1,2) [OF that] a g by simp
  qed
  with a g t show ?thesis by (simp only: Let_def) blast
qed

theorem end_to_end_scenario_witness:
  "\<exists>ov. aggregate [john_doe\<lparr>season_name := ''2015/2016'', goals := Some 2\<rparr>,
                   john_doe\<lparr>season_name := ''2017/2018'', goals := Some (- 1)\<rparr>] = Inr ov
     \<and> Appearances ov = 2 \<and> Goals ov = 2
     \<and> Season_table ov = [(''2015/2016'', 1, 2), (''2016/2017'', 0, 0), (''2017/2018'', 1, 0)]"
  using scenario_overview end_to_end_scenario [of john_doe john_doe]
  by (simp only: Let_def) blast

section \<open>Season names and years\<close>

lemma is_digit_not_special:
  assumes "is_digit c"
  shows "\<not> is_space c" "c \<noteq> CHR ''-''" "c \<noteq> CHR ''+''" "c \<noteq> CHR ''_''"
  using assms by (auto simp: is_digit_def is_space_def)

lemma digit_less_iff:
  assumes "is_digit a" "is_digit b"
  shows "a < b \<longleftrightarrow> digit_val a < digit_val b"
  using assms by (auto simp: less_char_def is_digit_def digit_val_def)

lemma digit_eq_iff:
  assumes "is_digit a" "is_digit b"
  shows "a = b \<longleftrightarrow> digit_val a = digit_val b"
proof
  assume "digit_val a = digit_val b"
  then have "(of_char a :: nat) = of_char b"
    using assms unfolding is_digit_def digit_val_def by linarith
  then show "a = b" by simp
qed simp

lemma digit_val_less_10: "is_digit c \<Longrightarrow> digit_val c < 10"
  unfolding is_digit_def digit_val_def by linarith

lemma py_int_four_digits:
  assumes "is_digit a" "is_digit b" "is_digit c" "is_digit d"
  shows "py_int [a, b, c, d] =
         Inr (int (1000 * digit_val a + 100 * digit_val b + 10 * digit_val c + digit_val d))"
  using assms by (simp add: py_int_def strip_def decimal_def is_digit_not_special)

lemma starts_with_year_cases:
  assumes "starts_with_year s"
  obtains a b c d rest where "s = a # b # c # d # rest"
    "is_digit a" "is_digit b" "is_digit c" "is_digit d"
proof -
  from assms have len: "4 \<le> length s" and dig: "list_all is_digit (take 4 s)"
    by (simp_all add: starts_with_year_def)
  from len obtain a b c d rest where s: "s = a # b # c # d # rest"
    by (cases s; cases "tl s"; cases "tl (tl s)"; cases "tl (tl (tl s))") auto
  with dig have "is_digit a" "is_digit b" "is_digit c" "is_digit d" by simp_all
  with s show ?thesis by (rule that)
qed

lemma start_year_digits:
  assumes "is_digit a" "is_digit b" "is_digit c" "is_digit d"
  shows "py_int (take 4 (a # b # c # d # rest)) =
           Inr (int (1000 * digit_val a + 100 * digit_val b + 10 * digit_val c + digit_val d))"
    and "start_year (a # b # c # d # rest) =
           int (1000 * digit_val a + 100 * digit_val b + 10 * digit_val c + digit_val d)"
  using py_int_four_digits [OF assms] by (simp_all add: start_year_def)

lemma py_int_starts_with_year:
  assumes "starts_with_year s"
  shows "py_int (take 4 s) = Inr (start_year s)"
proof -
  from assms obtain a b c d rest where s: "s = a # b # c # d # rest"
    and dg: "is_digit a" "is_digit b" "is_digit c" "is_digit d"
    by (rule starts_with_year_cases)
  show ?thesis unfolding s using start_year_digits [OF dg, of rest] by simp
qed

lemma start_year_range:
  assumes "starts_with_year s"
  shows "0 \<le> start_year s" "start_year s \<le> 9999"
proof -
  from assms obtain a b c d rest where s: "s = a # b # c # d # rest"
    and dg: "is_digit a" "is_digit b" "is_digit c" "is_digit d"
    by (rule starts_with_year_cases)
  have "digit_val a < 10" "digit_val b < 10" "digit_val c < 10" "digit_val d < 10"
    using dg by (simp_all add: digit_val_less_10)
  then show "0 \<le> start_year s" "start_year s \<le> 9999"
    unfolding s start_year_digits(2) [OF dg] by simp_all
qed

lemma digits_value_lex:
  fixes a b c d a' b' c' d' :: nat
  assumes "1000 * a + 100 * b + 10 * c + d < 1000 * a' + 100 * b' + 10 * c' + d'"
    and "b < 10" "c < 10" "d < 10" "b' < 10" "c' < 10" "d' < 10"
  shows "a < a' \<or> a = a' \<and> (b < b' \<or> b = b' \<and> (c < c' \<or> c = c' \<and> d < d'))"
  using assms by linarith

lemma start_year_less_imp_less:
  assumes "starts_with_year s" "starts_with_year t" "start_year s < start_year t"
  shows "s < t"
proof -
  from assms(1) obtain a b c d rest where s: "s = a # b # c # d # rest"
    and ds: "is_digit a" "is_digit b" "is_digit c" "is_digit d"
    by (rule starts_with_year_cases)
  from assms(2) obtain a' b' c' d' rest' where t: "t = a' # b' # c' # d' # rest'"
    and dt: "is_digit a'" "is_digit b'" "is_digit c'" "is_digit d'"
    by (rule starts_with_year_cases)
  have "1000 * digit_val a + 100 * digit_val b + 10 * digit_val c + digit_val d
        < 1000 * digit_val a' + 100 * digit_val b' + 10 * digit_val c' + digit_val d'"
    using assms(3) unfolding s t start_year_digits(2) [OF ds] start_year_digits(2) [OF dt]
    by linarith
  then have "digit_val a < digit_val a' \<or> digit_val a = digit_val a' \<and>
     (digit_val b < digit_val b' \<or> digit_val b = digit_val b' \<and>
     (digit_val c < digit_val c' \<or> digit_val c = digit_val c' \<and> digit_val d < digit_val d'))"
    using ds dt by (intro digits_value_lex) (simp_all add: digit_val_less_10)
  then have "a < a' \<or> a = a' \<and> (b < b' \<or> b = b' \<and> (c < c' \<or> c = c' \<and> d < d'))"
    using ds dt by (simp add: digit_less_iff digit_eq_iff)
  then show ?thesis unfolding s t by auto
qed

lemma le_imp_start_year_le:
  assumes "starts_with_year s" "starts_with_year t" "s \<le> t"
  shows "start_year s \<le> start_year t"
proof (rule ccontr)
  assume "\<not> start_year s \<le> start_year t"
  then have "start_year t < start_year s" by simp
  then have "t < s" using assms(1,2) by (simp add: start_year_less_imp_less)
  with assms(3) show False by simp
qed

lemma astype_int_starts_with_year:
  assumes "\<forall>s\<in>set ss. starts_with_year s"
  shows "astype_int (map (take 4) ss) = Inr (map start_year ss)"
  using assms by (induction ss) (simp_all add: py_int_starts_with_year)

lemma sort_key_fst_group_seasons: "sort_key fst (group_seasons df) = group_seasons df"
  by (rule sort_key_id_if_sorted) (simp add: group_seasons_def comp_def)

lemma filter_zip_keys:
  "filter (\<lambda>(st, s, a, g). st = y) (zip (map f keys) (map (\<lambda>s. (s, A s, B s)) keys)) =
   map (\<lambda>s. (f s, s, A s, B s)) (filter (\<lambda>s. f s = y) keys)"
  by (induction keys) simp_all

lemma filter_eq_distinct:
  "distinct xs \<Longrightarrow> filter (\<lambda>x. x = a) xs = (if a \<in> set xs then [a] else [])"
  by (induction xs) auto

lemma concat_map_single:
  "(\<And>x. x \<in> set xs \<Longrightarrow> f x = [g x]) \<Longrightarrow> concat (map f xs) = map g xs"
  by (induction xs) simp_all

lemma merge_year_row:
  assumes "inj_on start_year (season_name ` set df)"
  shows "merge_year (zip (map start_year (sort (remdups (map season_name df)))) (group_seasons df)) y
         = [season_row df y]"
proof -
  let ?keys = "sort (remdups (map season_name df))"
  have keys: "set ?keys = season_name ` set df" by simp
  have d: "distinct ?keys" by simp
  show ?thesis
  proof (cases "\<exists>k\<in>set ?keys. start_year k = y")
    case True
    then obtain k where k: "k \<in> set ?keys" "start_year k = y" by blast
    have same: "start_year s = y \<longleftrightarrow> s = k" if "s \<in> set ?keys" for s
      using that k assms unfolding keys by (auto dest: inj_onD)
    then have "filter (\<lambda>s. start_year s = y) ?keys = filter (\<lambda>s. s = k) ?keys"
      by (simp cong: filter_cong del: set_sort set_remdups)
    then have f: "filter (\<lambda>s. start_year s = y) ?keys = [k]"
      using d k(1) by (simp only: filter_eq_distinct if_True)
    have "start_year (season_name r) = y \<longleftrightarrow> season_name r = k" if "r \<in> set df" for r
      using that same [of "season_name r"] unfolding keys by blast
    then have rows: "filter (\<lambda>r. start_year (season_name r) = y) df =
                     filter (\<lambda>r. season_name r = k) df"
      by (simp cong: filter_cong)
    show ?thesis
      by (simp add: merge_year_def group_seasons_def filter_zip_keys f season_row_def rows
          del: set_sort set_remdups)
  next
    case False
    then have f: "filter (\<lambda>s. start_year s = y) ?keys = []"
      by (simp only: filter_empty_conv) blast
    have "\<forall>r\<in>set df. start_year (season_name r) \<noteq> y" using False unfolding keys by blast
    then have rows: "filter (\<lambda>r. start_year (season_name r) = y) df = []"
      by (simp only: filter_empty_conv)
    show ?thesis
      by (simp add: merge_year_def group_seasons_def filter_zip_keys f season_row_def rows
          sum_skipna_def del: set_sort set_remdups)
  qed
qed

lemma season_stats_dense:
  assumes "df \<noteq> []" "\<forall>r\<in>set df. starts_with_year (season_name r)"
    "inj_on start_year (season_name ` set df)"
  shows "season_stats df = Inr (map (season_row df) [first_start_year df .. last_start_year df])"
proof -
  let ?keys = "sort (remdups (map season_name df))"
  let ?starts = "map start_year ?keys"
  have wf: "\<forall>s\<in>set ?keys. starts_with_year s" using assms(2) by simp
  have "map (\<lambda>(s, a, g). take 4 s) (group_seasons df) = map (take 4) ?keys"
    by (simp add: group_seasons_def comp_def)
  then have conv: "astype_int (map (\<lambda>(s, a, g). take 4 s) (group_seasons df)) = Inr ?starts"
    using astype_int_starts_with_year [OF wf] by simp
  have "set ?keys \<noteq> {}" using assms(1) by simp
  then have ne: "?starts \<noteq> []" by (simp only: map_is_Nil_conv set_empty) simp
  have s: "set ?starts = set (map (\<lambda>r. start_year (season_name r)) df)" by auto
  have "concat (map (merge_year (zip ?starts (group_seasons df)))
               [Min (set ?starts) .. Max (set ?starts)])
        = map (season_row df) [Min (set ?starts) .. Max (set ?starts)]"
    using merge_year_row [OF assms(3)] by (intro concat_map_single) blast
  then show ?thesis
    using ne
    by (simp only: season_stats_def Let_def sort_key_fst_group_seasons conv sum.case if_False
        first_start_year_def last_start_year_def s)
qed

lemma label_2018: "season_label 2018 = ''2018/2019''" by code_simp
lemma int_2018: "py_int ''2018'' = Inr 2018" by code_simp

text \<open>
  C1 (season densification). For a non-empty frame whose season names start with their
  four-digit year, no two of them with the same year, the season table has exactly one row
  for every start year from the least to the greatest one present, in ascending order: the
  row of year \<open>y\<close> is labelled \<^verbatim>\<open>y/(y+1)\<close> and holds the number of rows and the sum of the
  goals of that season, which are both 0 when the season has no row. Season names of the
  form \<^verbatim>\<open>Y/(Y+1)\<close> meet both conditions. In the example of the specification, rows for
  2015/2016 and 2018/2019 only give four seasons.
\<close>

theorem season_densification:
  assumes "df \<noteq> []"
    and "\<forall>r\<in>set df. starts_with_year (season_name r)"
    and "inj_on start_year (season_name ` set df)"
  shows "season_stats df = Inr (map (season_row df) [first_start_year df .. last_start_year df])
         \<and> (\<forall>y. y \<notin> start_year ` season_name ` set df \<longrightarrow>
               season_row df y = (season_label y, 0, 0))"
proof -
  have "season_row df y = (season_label y, 0, 0)" if "y \<notin> start_year ` season_name ` set df" for y
  proof -
    have "\<forall>r\<in>set df. start_year (season_name r) \<noteq> y" using that by blast
    then have "filter (\<lambda>r. start_year (season_name r) = y) df = []"
      by (simp only: filter_empty_conv)
    then show ?thesis by (simp add: season_row_def sum_skipna_def)
  qed
  with season_stats_dense [OF assms] show ?thesis by blast
qed

theorem season_densification_witness:
  "starts_with_year ''2015/2016'' \<and> starts_with_year ''2018/2019''
   \<and> inj_on start_year {''2015/2016'', ''2018/2019''}
   \<and> season_stats
        [john_doe\<lparr>season_name := ''2018/2019'', goals := Some 1\<rparr>,
         john_doe\<lparr>season_name := ''2015/2016'', goals := Some 3\<rparr>,
         john_doe\<lparr>season_name := ''2018/2019'', goals := Some 2\<rparr>]
       = Inr [(''2015/2016'', 1, 3), (''2016/2017'', 0, 0), (''2017/2018'', 0, 0),
              (''2018/2019'', 2, 3)]"
proof -
  let ?df = "[john_doe\<lparr>season_name := ''2018/2019'', goals := Some 1\<rparr>,
         john_doe\<lparr>season_name := ''2015/2016'', goals := Some 3\<rparr>,
         john_doe\<lparr>season_name := ''2018/2019'', goals := Some 2\<rparr>]"
  have wf: "starts_with_year ''2015/2016''" "starts_with_year ''2018/2019''"
    by (simp_all add: starts_with_year_def is_digit_def)
  have y: "start_year ''2015/2016'' = 2015" "start_year ''2018/2019'' = 2018"
    by (simp_all add: start_year_def int_2015 int_2018)
  have inj: "inj_on start_year {''2015/2016'', ''2018/2019''}" by (simp add: y)
  have "\<forall>r\<in>set ?df. starts_with_year (season_name r)" using wf by simp
  moreover have "inj_on start_year (season_name ` set ?df)" using inj by (simp add: insert_commute)
  ultimately
  have "season_stats ?df = Inr (map (season_row ?df) [first_start_year ?df .. last_start_year ?df])"
    using season_densification [of ?df] by simp
  moreover have "first_start_year ?df = 2015" "last_start_year ?df = 2018"
    by (simp_all add: first_start_year_def last_start_year_def y)
  moreover have "[2015 .. 2018] = [2015, 2016, 2017, 2018 :: int]" by (simp add: upto_rec1)
  ultimately show ?thesis
    using wf inj
    by (simp add: season_row_def sum_skipna_def y label_2015 label_2016 label_2017 label_2018)
qed

lemma zip_map_same: "zip xs (map f xs) = map (\<lambda>x. (x, f x)) xs"
  by (induction xs) simp_all

lemma insort_key_snd_pairs:
  "insort_key snd (x, k x) (map (\<lambda>t. (t, k t)) ys) = map (\<lambda>t. (t, k t)) (insort_key k x ys)"
  by (induction ys) simp_all

lemma sort_key_snd_pairs:
  "sort_key snd (map (\<lambda>t. (t, k t)) xs) = map (\<lambda>t. (t, k t)) (sort_key k xs)"
  by (induction xs) (simp_all add: insort_key_snd_pairs)

lemma first_seasons_depends_on_set:
  assumes "set df' = set df"
  shows "first_seasons df' = first_seasons df"
proof -
  have names: "sort (remdups (map team_name df')) = sort (remdups (map team_name df))"
    using assms by (simp add: sorted_list_of_set_sort_remdups [symmetric])
  have "min_list (map season_name (filter (\<lambda>r. team_name r = t) df')) =
        min_list (map season_name (filter (\<lambda>r. team_name r = t) df))"
    if "t \<in> set (sort (remdups (map team_name df)))" for t
  proof -
    have ne: "map season_name (filter (\<lambda>r. team_name r = t) df) \<noteq> []"
      using that by (auto simp: filter_empty_conv)
    have ne': "map season_name (filter (\<lambda>r. team_name r = t) df') \<noteq> []"
      using that assms by (auto simp: filter_empty_conv)
    show ?thesis using assms by (simp add: min_list_Min [OF ne] min_list_Min [OF ne'])
  qed
  then show ?thesis by (simp add: first_seasons_def names cong: map_cong)
qed

lemma is_digit_iff_decimal: "is_digit c \<longleftrightarrow> c \<in> set ''0123456789''"
proof
  assume "is_digit c"
  then have "(of_char c :: nat) \<in> {48, 49, 50, 51, 52, 53, 54, 55, 56, 57}"
    unfolding is_digit_def by (simp only: insert_iff empty_iff) arith
  moreover have "c = char_of (of_char c :: nat)" by simp
  ultimately have "c \<in> char_of ` {48, 49, 50, 51, 52, 53, 54, 55, 56, 57 :: nat}"
    by (metis imageI)
  moreover have "char_of (48 :: nat) = CHR ''0''" "char_of (49 :: nat) = CHR ''1''"
    "char_of (50 :: nat) = CHR ''2''" "char_of (51 :: nat) = CHR ''3''"
    "char_of (52 :: nat) = CHR ''4''" "char_of (53 :: nat) = CHR ''5''"
    "char_of (54 :: nat) = CHR ''6''" "char_of (55 :: nat) = CHR ''7''"
    "char_of (56 :: nat) = CHR ''8''" "char_of (57 :: nat) = CHR ''9''"
    by code_simp+
  ultimately show "c \<in> set ''0123456789''"
    by (simp only: image_insert image_empty insert_iff empty_iff list.set)
next
  assume "c \<in> set ''0123456789''"
  then have "c = CHR ''0'' \<or> c = CHR ''1'' \<or> c = CHR ''2'' \<or> c = CHR ''3'' \<or> c = CHR ''4''
      \<or> c = CHR ''5'' \<or> c = CHR ''6'' \<or> c = CHR ''7'' \<or> c = CHR ''8'' \<or> c = CHR ''9''"
    by simp
  then show "is_digit c" by (elim disjE) (simp_all add: is_digit_def)
qed

lemma digit_val_decimal:
  assumes "is_digit c"
  shows "digit_val c = decimal_digit c"
proof -
  from assms have "c \<in> set ''0123456789''" by (simp only: is_digit_iff_decimal)
  then have "c = CHR ''0'' \<or> c = CHR ''1'' \<or> c = CHR ''2'' \<or> c = CHR ''3'' \<or> c = CHR ''4''
      \<or> c = CHR ''5'' \<or> c = CHR ''6'' \<or> c = CHR ''7'' \<or> c = CHR ''8'' \<or> c = CHR ''9''"
    by simp
  then show ?thesis by (elim disjE) (simp_all add: digit_val_def decimal_digit_def)
qed

lemma year_written_iff: "year_written s \<longleftrightarrow> starts_with_year s"
proof -
  have "(\<lambda>c. c \<in> set ''0123456789'') = is_digit"
    by (rule ext) (simp only: is_digit_iff_decimal)
  then show ?thesis by (simp only: year_written_def starts_with_year_def)
qed

lemma start_year_written:
  assumes "starts_with_year s"
  shows "start_year s = written_year s"
proof -
  from assms obtain a b c d rest where s: "s = a # b # c # d # rest"
    and dg: "is_digit a" "is_digit b" "is_digit c" "is_digit d"
    by (rule starts_with_year_cases)
  show ?thesis
    unfolding s start_year_digits(2) [OF dg]
    by (simp add: written_year_def digit_val_decimal dg)
qed

lemma team_order_sorted:
  assumes "\<forall>r\<in>set df. year_written (season_name r)"
  shows "team_order df = Inr (sort_key (team_first_year df) (sort (remdups (map team_name df))))"
proof -
  let ?names = "sort (remdups (map team_name df))"
  let ?m = "\<lambda>t. min_list (map season_name (filter (\<lambda>r. team_name r = t) df))"
  have m: "starts_with_year (?m t) \<and> start_year (?m t) = team_first_year df t"
    if "t \<in> set ?names" for t
  proof -
    let ?xs = "map season_name (filter (\<lambda>r. team_name r = t) df)"
    have ne: "?xs \<noteq> []" using that by (auto simp: filter_empty_conv)
    have wf: "\<forall>s\<in>set ?xs. starts_with_year s"
      using assms by (auto simp: year_written_iff)
    have fin: "finite (set ?xs)" by (rule finite_set)
    have nes: "set ?xs \<noteq> {}" using ne unfolding set_empty .
    have mem: "min_list ?xs \<in> set ?xs"
      unfolding min_list_Min [OF ne] using fin nes by (rule Min_in)
    have le: "\<forall>s\<in>set ?xs. min_list ?xs \<le> s"
      unfolding min_list_Min [OF ne] using Min_le [OF fin] by blast
    have "Min (start_year ` set ?xs) = start_year (min_list ?xs)"
    proof (rule Min_eqI)
      show "finite (start_year ` set ?xs)" by simp
      show "start_year (min_list ?xs) \<in> start_year ` set ?xs" using mem by (rule imageI)
      fix y assume "y \<in> start_year ` set ?xs"
      then obtain s where s: "s \<in> set ?xs" "y = start_year s" by auto
      then show "start_year (min_list ?xs) \<le> y"
        using le wf mem le_imp_start_year_le [of "min_list ?xs" s] by blast
    qed
    moreover have "start_year ` set ?xs = written_year ` set ?xs"
    proof (rule image_cong [OF refl])
      fix s assume "s \<in> set ?xs"
      with wf have "starts_with_year s" by blast
      then show "start_year s = written_year s" by (rule start_year_written)
    qed
    moreover have "team_first_year df t = Min (written_year ` set ?xs)"
      by (simp add: team_first_year_def image_image)
    ultimately have "start_year (min_list ?xs) = team_first_year df t" by simp
    moreover have "starts_with_year (min_list ?xs)" using wf mem by blast
    ultimately show ?thesis by blast
  qed
  have g: "first_seasons df = map (\<lambda>t. (t, ?m t)) ?names" by (simp add: first_seasons_def)
  have "map (\<lambda>(t, s). take 4 s) (first_seasons df) = map (take 4) (map ?m ?names)"
    by (simp add: g comp_def)
  moreover have "astype_int (map (take 4) (map ?m ?names)) = Inr (map start_year (map ?m ?names))"
    by (rule astype_int_starts_with_year) (use m in auto)
  moreover have "map start_year (map ?m ?names) = map (team_first_year df) ?names"
    using m by simp
  ultimately have conv: "astype_int (map (\<lambda>(t, s). take 4 s) (first_seasons df)) =
      Inr (map (team_first_year df) ?names)" by simp
  have z: "zip (map fst (first_seasons df)) (map (team_first_year df) ?names) =
           map (\<lambda>t. (t, team_first_year df t)) ?names"
    by (simp add: g comp_def zip_map_same)
  show ?thesis
    by (simp only: team_order_def Let_def conv sum.case z sort_key_snd_pairs)
      (simp add: comp_def)
qed

lemma distinct_pair:
  assumes "distinct ts" "set ts = {a, b}" "a \<noteq> b"
  shows "ts = [a, b] \<or> ts = [b, a]"
proof -
  have "length ts = 2" using distinct_card [OF assms(1)] assms(2,3) by simp
  then obtain x y where "ts = [x, y]"
    by (auto simp: length_Suc_conv numeral_2_eq_2)
  with assms show ?thesis by (auto simp: doubleton_eq_iff)
qed

text \<open>
  C6 (team order). For a frame whose season names start with a four-digit year, the
  teams string joins, with the en dash separator, a list that holds every team of the
  frame exactly once and is ordered by the first year of each team: the least year
  written on the team's rows, read off the characters and not through the program's own
  conversion. The string depends only on the set of rows, so every reordering of the rows
  gives the same string. Below, team A first in 2011/2012 and team B first in 2010/2011
  give B, en dash, A, against the alphabet; the example of the specification gives
  A, en dash, B in both row orders.
\<close>

theorem team_order_by_first_season:
  assumes "\<forall>r\<in>set df. year_written (season_name r)"
  shows "\<exists>ts. team_order df = Inr ts \<and> teams df = Inr (join en_dash ts)
           \<and> distinct ts \<and> set ts = team_name ` set df
           \<and> sorted (map (team_first_year df) ts)
           \<and> (\<forall>df'. set df' = set df \<longrightarrow> teams df' = teams df)"
proof -
  let ?ts = "sort_key (team_first_year df) (sort (remdups (map team_name df)))"
  note t = team_order_sorted [OF assms]
  have "teams df = Inr (join en_dash ?ts)" by (simp add: teams_def t)
  moreover have "distinct ?ts" by simp
  moreover have "set ?ts = team_name ` set df" by simp
  moreover have "sorted (map (team_first_year df) ?ts)" by (rule sorted_sort_key)
  moreover have "teams df' = teams df" if "set df' = set df" for df'
    using first_seasons_depends_on_set [OF that] by (simp add: teams_def team_order_def)
  ultimately show ?thesis using t by blast
qed

theorem team_order_by_first_season_witness:
  "year_written ''2010/2011'' \<and> year_written ''2011/2012'' \<and> year_written ''2012/2013''
   \<and> teams [john_doe\<lparr>team_name := ''A'', season_name := ''2011/2012''\<rparr>,
            john_doe\<lparr>team_name := ''B'', season_name := ''2010/2011''\<rparr>,
            john_doe\<lparr>team_name := ''A'', season_name := ''2012/2013''\<rparr>]
       = Inr [CHR ''B'', CHR '' '', CHR 0xE2, CHR 0x80, CHR 0x93, CHR '' '', CHR ''A'']
   \<and> teams [john_doe\<lparr>team_name := ''A'', season_name := ''2012/2013''\<rparr>,
            john_doe\<lparr>team_name := ''B'', season_name := ''2011/2012''\<rparr>,
            john_doe\<lparr>team_name := ''A'', season_name := ''2010/2011''\<rparr>]
       = Inr [CHR ''A'', CHR '' '', CHR 0xE2, CHR 0x80, CHR 0x93, CHR '' '', CHR ''B'']
   \<and> teams [john_doe\<lparr>team_name := ''B'', season_name := ''2011/2012''\<rparr>,
            john_doe\<lparr>team_name := ''A'', season_name := ''2010/2011''\<rparr>,
            john_doe\<lparr>team_name := ''A'', season_name := ''2012/2013''\<rparr>]
       = Inr [CHR ''A'', CHR '' '', CHR 0xE2, CHR 0x80, CHR 0x93, CHR '' '', CHR ''B'']"
proof -
  let ?d1 = "[john_doe\<lparr>team_name := ''A'', season_name := ''2011/2012''\<rparr>,
            john_doe\<lparr>team_name := ''B'', season_name := ''2010/2011''\<rparr>,
            john_doe\<lparr>team_name := ''A'', season_name := ''2012/2013''\<rparr>]"
  let ?d2 = "[john_doe\<lparr>team_name := ''A'', season_name := ''2012/2013''\<rparr>,
            john_doe\<lparr>team_name := ''B'', season_name := ''2011/2012''\<rparr>,
            john_doe\<lparr>team_name := ''A'', season_name := ''2010/2011''\<rparr>]"
  let ?d3 = "[john_doe\<lparr>team_name := ''B'', season_name := ''2011/2012''\<rparr>,
            john_doe\<lparr>team_name := ''A'', season_name := ''2010/2011''\<rparr>,
            john_doe\<lparr>team_name := ''A'', season_name := ''2012/2013''\<rparr>]"
  have wf: "year_written ''2010/2011''" "year_written ''2011/2012''" "year_written ''2012/2013''"
    by (simp_all add: year_written_def)
  have y: "written_year ''2010/2011'' = 2010" "written_year ''2011/2012'' = 2011"
    "written_year ''2012/2013'' = 2012"
    by (simp_all add: written_year_def decimal_digit_def)
  have ab: "''A'' \<noteq> ''B''" by simp
  have h1: "\<forall>r\<in>set ?d1. year_written (season_name r)" using wf by simp
  have f1: "team_first_year ?d1 ''A'' = 2011" "team_first_year ?d1 ''B'' = 2010"
    by (simp_all add: team_first_year_def y)
  from team_order_by_first_season [OF h1] obtain ts where ts:
    "teams ?d1 = Inr (join en_dash ts)" "distinct ts" "set ts = team_name ` set ?d1"
    "sorted (map (team_first_year ?d1) ts)" by blast
  have "set ts = {''B'', ''A''}" using ts(3) by auto
  from distinct_pair [OF ts(2) this] have "ts = [''B'', ''A''] \<or> ts = [''A'', ''B'']"
    using ab by simp
  then have "ts = [''B'', ''A'']" using ts(4) f1 by auto
  then have r1: "teams ?d1 =
      Inr [CHR ''B'', CHR '' '', CHR 0xE2, CHR 0x80, CHR 0x93, CHR '' '', CHR ''A'']"
    using ts(1) by (simp add: en_dash_def)
  have h2: "\<forall>r\<in>set ?d2. year_written (season_name r)" using wf by simp
  have f2: "team_first_year ?d2 ''A'' = 2010" "team_first_year ?d2 ''B'' = 2011"
    by (simp_all add: team_first_year_def y)
  from team_order_by_first_season [OF h2] obtain us where us:
    "teams ?d2 = Inr (join en_dash us)" "distinct us" "set us = team_name ` set ?d2"
    "sorted (map (team_first_year ?d2) us)"
    "\<forall>df'. set df' = set ?d2 \<longrightarrow> teams df' = teams ?d2" by blast
  have "set us = {''A'', ''B''}" using us(3) by auto
  from distinct_pair [OF us(2) this] have "us = [''A'', ''B''] \<or> us = [''B'', ''A'']"
    using ab by simp
  then have "us = [''A'', ''B'']" using us(4) f2 by auto
  then have r2: "teams ?d2 =
      Inr [CHR ''A'', CHR '' '', CHR 0xE2, CHR 0x80, CHR 0x93, CHR '' '', CHR ''B'']"
    using us(1) by (simp add: en_dash_def)
  have "set ?d3 = set ?d2" by auto
  then have r3: "teams ?d3 = teams ?d2" using us(5) by blast
  show ?thesis using wf r1 r2 r3 by simp
qed

section \<open>Query layer and cache\<close>

lemma fst_load_latest_game_date: "fst (load_latest_game_date w) = select_latest_game_date (table w)"
  by (simp add: load_latest_game_date_def Let_def)

lemma fst_load_competitions: "fst (load_competitions w) = select_competitions (table w)"
  by (simp add: load_competitions_def Let_def)

lemma fst_load_number_of_seasons:
  "fst (load_number_of_seasons c w) =
     (if c = [] then Inr Empty_list
      else case select_max_seasons (table w) c of
             None \<Rightarrow> Inl Int_of_null | Some m \<Rightarrow> Inr (Max_seasons m))"
  by (simp add: load_number_of_seasons_def Let_def split: option.splits)

lemma fst_load_players:
  "fst (load_players m c w) = (if c = [] then [] else sort (select_players (table w) m c))"
  by (simp add: load_players_def Let_def)

lemma fst_load_player_data:
  "fst (load_player_data m p c w) =
     (case p of None \<Rightarrow> []
      | Some q \<Rightarrow> if q = [] \<or> c = [] then [] else select_player_data (table w) m q c)"
  by (simp add: load_player_data_def Let_def split: option.splits)

lemmas fst_loads = fst_load_latest_game_date fst_load_competitions fst_load_number_of_seasons
  fst_load_players fst_load_player_data

text \<open>The functions change nothing but the engine count and the list of queries sent.\<close>

lemma loads_only_log:
  "\<exists>e i. snd (load_latest_game_date w) = w\<lparr>engines := e, issued := i\<rparr>"
  "\<exists>e i. snd (load_competitions w) = w\<lparr>engines := e, issued := i\<rparr>"
  "\<exists>e i. snd (load_number_of_seasons c w) = w\<lparr>engines := e, issued := i\<rparr>"
  "\<exists>e i. snd (load_players m c w) = w\<lparr>engines := e, issued := i\<rparr>"
  "\<exists>e i. snd (load_player_data m p c w) = w\<lparr>engines := e, issued := i\<rparr>"
proof -
  have same: "w = w\<lparr>engines := engines w, issued := issued w\<rparr>" by simp
  show "\<exists>e i. snd (load_latest_game_date w) = w\<lparr>engines := e, issued := i\<rparr>"
    by (simp add: load_latest_game_date_def Let_def connect_to_sql_alchemy_server_def read_sql_def)
      blast
  show "\<exists>e i. snd (load_competitions w) = w\<lparr>engines := e, issued := i\<rparr>"
    by (simp add: load_competitions_def Let_def connect_to_sql_alchemy_server_def read_sql_def)
      blast
  show "\<exists>e i. snd (load_number_of_seasons c w) = w\<lparr>engines := e, issued := i\<rparr>"
  proof (cases "c = []")
    case True
    then have "snd (load_number_of_seasons c w) = w" by (simp add: load_number_of_seasons_def)
    then show ?thesis using same by metis
  next
    case False
    then show ?thesis
      by (cases "select_max_seasons (table w) c")
        (simp_all add: load_number_of_seasons_def Let_def connect_to_sql_alchemy_server_def
          read_sql_def, blast+)
  qed
  show "\<exists>e i. snd (load_players m c w) = w\<lparr>engines := e, issued := i\<rparr>"
  proof (cases "c = []")
    case True
    then have "snd (load_players m c w) = w" by (simp add: load_players_def)
    then show ?thesis using same by metis
  next
    case False
    then show ?thesis
      by (simp add: load_players_def Let_def connect_to_sql_alchemy_server_def read_sql_def) blast
  qed
  show "\<exists>e i. snd (load_player_data m p c w) = w\<lparr>engines := e, issued := i\<rparr>"
  proof (cases "case p of None \<Rightarrow> True | Some q \<Rightarrow> q = [] \<or> c = []")
    case True
    then have "snd (load_player_data m p c w) = w"
      by (auto simp: load_player_data_def split: option.splits)
    then show ?thesis using same by metis
  next
    case False
    then show ?thesis
      by (auto simp: load_player_data_def Let_def connect_to_sql_alchemy_server_def read_sql_def
          split: option.splits)
  qed
qed

lemma load_results_frame:
  "fst (load_latest_game_date (w\<lparr>engines := x0\<rparr>)) = fst (load_latest_game_date w)"
  "fst (load_latest_game_date (w\<lparr>issued := x1\<rparr>)) = fst (load_latest_game_date w)"
  "fst (load_latest_game_date (w\<lparr>latest_game_date_cache := x2\<rparr>)) = fst (load_latest_game_date w)"
  "fst (load_latest_game_date (w\<lparr>competitions_cache := x3\<rparr>)) = fst (load_latest_game_date w)"
  "fst (load_latest_game_date (w\<lparr>number_of_seasons_cache := x4\<rparr>)) = fst (load_latest_game_date w)"
  "fst (load_latest_game_date (w\<lparr>players_cache := x5\<rparr>)) = fst (load_latest_game_date w)"
  "fst (load_latest_game_date (w\<lparr>player_data_cache := x6\<rparr>)) = fst (load_latest_game_date w)"
  "fst (load_competitions (w\<lparr>engines := x0\<rparr>)) = fst (load_competitions w)"
  "fst (load_competitions (w\<lparr>issued := x1\<rparr>)) = fst (load_competitions w)"
  "fst (load_competitions (w\<lparr>latest_game_date_cache := x2\<rparr>)) = fst (load_competitions w)"
  "fst (load_competitions (w\<lparr>competitions_cache := x3\<rparr>)) = fst (load_competitions w)"
  "fst (load_competitions (w\<lparr>number_of_seasons_cache := x4\<rparr>)) = fst (load_competitions w)"
  "fst (load_competitions (w\<lparr>players_cache := x5\<rparr>)) = fst (load_competitions w)"
  "fst (load_competitions (w\<lparr>player_data_cache := x6\<rparr>)) = fst (load_competitions w)"
  "fst (load_number_of_seasons c (w\<lparr>engines := x0\<rparr>)) = fst (load_number_of_seasons c w)"
  "fst (load_number_of_seasons c (w\<lparr>issued := x1\<rparr>)) = fst (load_number_of_seasons c w)"
  "fst (load_number_of_seasons c (w\<lparr>latest_game_date_cache := x2\<rparr>)) = fst (load_number_of_seasons c w)"
  "fst (load_number_of_seasons c (w\<lparr>competitions_cache := x3\<rparr>)) = fst (load_number_of_seasons c w)"
  "fst (load_number_of_seasons c (w\<lparr>number_of_seasons_cache := x4\<rparr>)) = fst (load_number_of_seasons c w)"
  "fst (load_number_of_seasons c (w\<lparr>players_cache := x5\<rparr>)) = fst (load_number_of_seasons c w)"
  "fst (load_number_of_seasons c (w\<lparr>player_data_cache := x6\<rparr>)) = fst (load_number_of_seasons c w)"
  "fst (load_players m c (w\<lparr>engines := x0\<rparr>)) = fst (load_players m c w)"
  "fst (load_players m c (w\<lparr>issued := x1\<rparr>)) = fst (load_players m c w)"
  "fst (load_players m c (w\<lparr>latest_game_date_cache := x2\<rparr>)) = fst (load_players m c w)"
  "fst (load_players m c (w\<lparr>competitions_cache := x3\<rparr>)) = fst (load_players m c w)"
  "fst (load_players m c (w\<lparr>number_of_seasons_cache := x4\<rparr>)) = fst (load_players m c w)"
  "fst (load_players m c (w\<lparr>players_cache := x5\<rparr>)) = fst (load_players m c w)"
  "fst (load_players m c (w\<lparr>player_data_cache := x6\<rparr>)) = fst (load_players m c w)"
  "fst (load_player_data m p c (w\<lparr>engines := x0\<rparr>)) = fst (load_player_data m p c w)"
  "fst (load_player_data m p c (w\<lparr>issued := x1\<rparr>)) = fst (load_player_data m p c w)"
  "fst (load_player_data m p c (w\<lparr>latest_game_date_cache := x2\<rparr>)) = fst (load_player_data m p c w)"
  "fst (load_player_data m p c (w\<lparr>competitions_cache := x3\<rparr>)) = fst (load_player_data m p c w)"
  "fst (load_player_data m p c (w\<lparr>number_of_seasons_cache := x4\<rparr>)) = fst (load_player_data m p c w)"
  "fst (load_player_data m p c (w\<lparr>players_cache := x5\<rparr>)) = fst (load_player_data m p c w)"
  "fst (load_player_data m p c (w\<lparr>player_data_cache := x6\<rparr>)) = fst (load_player_data m p c w)"
  by (simp_all add: fst_loads split: option.splits)

lemma cache_ok_log: "cache_ok (w\<lparr>engines := e, issued := i\<rparr>) = cache_ok w"
  by (simp add: cache_ok_def load_results_frame)

lemma cache_lookup_holds:
  assumes "list_all P c" "cache_lookup now c k = Some v"
  shows "\<exists>expires. P (k, v, expires)"
proof -
  from assms(2) obtain expires where "map_of c k = Some (v, expires)"
    by (auto simp: cache_lookup_def split: option.splits if_splits)
  then have "(k, v, expires) \<in> set c" by (rule map_of_SomeD)
  with assms(1) show ?thesis by (auto simp: list_all_iff)
qed

lemma cache_store_holds: "list_all P c \<Longrightarrow> P (k, v, now + ttl) \<Longrightarrow> list_all P (cache_store now c k v)"
  by (simp add: cache_store_def)

lemma cached_load_latest_game_date_ok:
  assumes "cache_ok w"
  shows "fst (cached_load_latest_game_date now w) = fst (load_latest_game_date w)"
    and "table (snd (cached_load_latest_game_date now w)) = table w"
    and "cache_ok (snd (cached_load_latest_game_date now w))"
proof -
  let ?r = "cached_load_latest_game_date now w"
  have "fst ?r = fst (load_latest_game_date w) \<and> table (snd ?r) = table w \<and> cache_ok (snd ?r)"
  proof (cases "cache_lookup now (latest_game_date_cache w) ()")
    case None
    obtain v w' where b: "load_latest_game_date w = (v, w')" by (cases "load_latest_game_date w")
    obtain e i where s: "w' = w\<lparr>engines := e, issued := i\<rparr>"
      using loads_only_log(1) [of w] b by auto
    have v: "v = fst (load_latest_game_date w)" by (simp add: b)
    have "cache_ok (w'\<lparr>latest_game_date_cache := cache_store now (latest_game_date_cache w') () v\<rparr>)"
      using assms by (simp add: cache_ok_def load_results_frame cache_store_def v s)
    then show ?thesis by (simp add: cached_load_latest_game_date_def None b s)
  next
    case (Some v)
    have "list_all (\<lambda>(k, v, expires). v = fst (load_latest_game_date w)) (latest_game_date_cache w)"
      using assms by (simp add: cache_ok_def)
    from cache_lookup_holds [OF this Some] have "v = fst (load_latest_game_date w)" by simp
    then show ?thesis using assms by (simp add: cached_load_latest_game_date_def Some)
  qed
  then show "fst ?r = fst (load_latest_game_date w)" "table (snd ?r) = table w" "cache_ok (snd ?r)"
    by simp_all
qed

lemma cached_load_competitions_ok:
  assumes "cache_ok w"
  shows "fst (cached_load_competitions now w) = fst (load_competitions w)"
    and "table (snd (cached_load_competitions now w)) = table w"
    and "cache_ok (snd (cached_load_competitions now w))"
proof -
  let ?r = "cached_load_competitions now w"
  have "fst ?r = fst (load_competitions w) \<and> table (snd ?r) = table w \<and> cache_ok (snd ?r)"
  proof (cases "cache_lookup now (competitions_cache w) ()")
    case None
    obtain v w' where b: "load_competitions w = (v, w')" by (cases "load_competitions w")
    obtain e i where s: "w' = w\<lparr>engines := e, issued := i\<rparr>"
      using loads_only_log(2) [of w] b by auto
    have v: "v = fst (load_competitions w)" by (simp add: b)
    have "cache_ok (w'\<lparr>competitions_cache := cache_store now (competitions_cache w') () v\<rparr>)"
      using assms by (simp add: cache_ok_def load_results_frame cache_store_def v s)
    then show ?thesis by (simp add: cached_load_competitions_def None b s)
  next
    case (Some v)
    have "list_all (\<lambda>(k, v, expires). v = fst (load_competitions w)) (competitions_cache w)"
      using assms by (simp add: cache_ok_def)
    from cache_lookup_holds [OF this Some] have "v = fst (load_competitions w)" by simp
    then show ?thesis using assms by (simp add: cached_load_competitions_def Some)
  qed
  then show "fst ?r = fst (load_competitions w)" "table (snd ?r) = table w" "cache_ok (snd ?r)"
    by simp_all
qed

lemma cached_load_number_of_seasons_ok:
  assumes "cache_ok w"
  shows "fst (cached_load_number_of_seasons c now w) = fst (load_number_of_seasons c w)"
    and "table (snd (cached_load_number_of_seasons c now w)) = table w"
    and "cache_ok (snd (cached_load_number_of_seasons c now w))"
proof -
  let ?r = "cached_load_number_of_seasons c now w"
  have "fst ?r = fst (load_number_of_seasons c w) \<and> table (snd ?r) = table w \<and> cache_ok (snd ?r)"
  proof (cases "cache_lookup now (number_of_seasons_cache w) c")
    case None
    obtain v w' where b: "load_number_of_seasons c w = (v, w')"
      by (cases "load_number_of_seasons c w")
    obtain e i where s: "w' = w\<lparr>engines := e, issued := i\<rparr>"
      using loads_only_log(3) [of c w] b by auto
    have v: "fst (load_number_of_seasons c w) = v" by (simp add: b)
    show ?thesis
    proof (cases v)
      case (Inl err)
      then show ?thesis
        using assms by (simp add: cached_load_number_of_seasons_def None b s cache_ok_log)
    next
      case (Inr m)
      have "cache_ok (w'\<lparr>number_of_seasons_cache :=
                   cache_store now (number_of_seasons_cache w') c m\<rparr>)"
        using assms v Inr by (simp add: cache_ok_def load_results_frame cache_store_def s)
      then show ?thesis
        using Inr by (simp add: cached_load_number_of_seasons_def None b s)
    qed
  next
    case (Some v)
    have "list_all (\<lambda>(k, v, expires). fst (load_number_of_seasons k w) = Inr v)
            (number_of_seasons_cache w)"
      using assms by (simp add: cache_ok_def)
    from cache_lookup_holds [OF this Some] have "fst (load_number_of_seasons c w) = Inr v"
      by simp
    then show ?thesis using assms by (simp add: cached_load_number_of_seasons_def Some)
  qed
  then show "fst ?r = fst (load_number_of_seasons c w)" "table (snd ?r) = table w" "cache_ok (snd ?r)"
    by simp_all
qed

lemma cached_load_players_ok:
  assumes "cache_ok w"
  shows "fst (cached_load_players m c now w) = fst (load_players m c w)"
    and "table (snd (cached_load_players m c now w)) = table w"
    and "cache_ok (snd (cached_load_players m c now w))"
proof -
  let ?r = "cached_load_players m c now w"
  have "fst ?r = fst (load_players m c w) \<and> table (snd ?r) = table w \<and> cache_ok (snd ?r)"
  proof (cases "cache_lookup now (players_cache w) (m, c)")
    case None
    obtain v w' where b: "load_players m c w = (v, w')" by (cases "load_players m c w")
    obtain e i where s: "w' = w\<lparr>engines := e, issued := i\<rparr>"
      using loads_only_log(4) [of m c w] b by auto
    have v: "v = fst (load_players m c w)" by (simp add: b)
    have "cache_ok (w'\<lparr>players_cache := cache_store now (players_cache w') (m, c) v\<rparr>)"
      using assms by (simp add: cache_ok_def load_results_frame cache_store_def v s)
    then show ?thesis by (simp add: cached_load_players_def None b s)
  next
    case (Some v)
    have "list_all (\<lambda>((m, c), v, expires). v = fst (load_players m c w)) (players_cache w)"
      using assms by (simp add: cache_ok_def)
    from cache_lookup_holds [OF this Some] have "v = fst (load_players m c w)" by simp
    then show ?thesis using assms by (simp add: cached_load_players_def Some)
  qed
  then show "fst ?r = fst (load_players m c w)" "table (snd ?r) = table w" "cache_ok (snd ?r)"
    by simp_all
qed

lemma cached_load_player_data_ok:
  assumes "cache_ok w"
  shows "fst (cached_load_player_data m p c now w) = fst (load_player_data m p c w)"
    and "table (snd (cached_load_player_data m p c now w)) = table w"
    and "cache_ok (snd (cached_load_player_data m p c now w))"
proof -
  let ?r = "cached_load_player_data m p c now w"
  have "fst ?r = fst (load_player_data m p c w) \<and> table (snd ?r) = table w \<and> cache_ok (snd ?r)"
  proof (cases "cache_lookup now (player_data_cache w) (m, p, c)")
    case None
    obtain v w' where b: "load_player_data m p c w = (v, w')" by (cases "load_player_data m p c w")
    obtain e i where s: "w' = w\<lparr>engines := e, issued := i\<rparr>"
      using loads_only_log(5) [of m p c w] b by auto
    have v: "v = fst (load_player_data m p c w)" by (simp add: b)
    have "cache_ok (w'\<lparr>player_data_cache := cache_store now (player_data_cache w') (m, p, c) v\<rparr>)"
      using assms by (simp add: cache_ok_def load_results_frame cache_store_def v s)
    then show ?thesis by (simp add: cached_load_player_data_def None b s)
  next
    case (Some v)
    have "list_all (\<lambda>((m, p, c), v, expires). v = fst (load_player_data m p c w)) (player_data_cache w)"
      using assms by (simp add: cache_ok_def)
    from cache_lookup_holds [OF this Some] have "v = fst (load_player_data m p c w)" by simp
    then show ?thesis using assms by (simp add: cached_load_player_data_def Some)
  qed
  then show "fst ?r = fst (load_player_data m p c w)" "table (snd ?r) = table w" "cache_ok (snd ?r)"
    by simp_all
qed

lemma create_streamlit_app_ok:
  assumes "cache_ok w"
  shows "fst (create_streamlit_app u now w) = page_for u (table w)"
    and "table (snd (create_streamlit_app u now w)) = table w"
    and "cache_ok (snd (create_streamlit_app u now w))"
proof -
  obtain d w1 where s1: "cached_load_latest_game_date now w = (d, w1)"
    by (cases "cached_load_latest_game_date now w")
  have d: "d = select_latest_game_date (table w)" and t1: "table w1 = table w" and o1: "cache_ok w1"
    using cached_load_latest_game_date_ok [OF assms, of now] by (simp_all add: s1 fst_loads)
  obtain opts w2 where s2: "cached_load_competitions now w1 = (opts, w2)"
    by (cases "cached_load_competitions now w1")
  have t2: "table w2 = table w" and o2: "cache_ok w2"
    using cached_load_competitions_ok [OF o1, of now] by (simp_all add: s2 t1)
  obtain n w3 where s3: "cached_load_number_of_seasons (competitions u) now w2 = (n, w3)"
    by (cases "cached_load_number_of_seasons (competitions u) now w2")
  have n: "n = fst (load_number_of_seasons (competitions u) w2)"
    and t3: "table w3 = table w" and o3: "cache_ok w3"
    using cached_load_number_of_seasons_ok [OF o2, of "competitions u" now] by (simp_all add: s3 t2)
  obtain ps w4 where s4:
    "cached_load_players (minimum_seasons u) (competitions u) now w3 = (ps, w4)"
    by (cases "cached_load_players (minimum_seasons u) (competitions u) now w3")
  have t4: "table w4 = table w" and o4: "cache_ok w4"
    using cached_load_players_ok [OF o3, of "minimum_seasons u" "competitions u" now]
    by (simp_all add: s4 t3)
  obtain df w5 where s5:
    "cached_load_player_data (minimum_seasons u) (player u) (competitions u) now w4 = (df, w5)"
    by (cases "cached_load_player_data (minimum_seasons u) (player u) (competitions u) now w4")
  have df: "df = fst (load_player_data (minimum_seasons u) (player u) (competitions u) w4)"
    and t5: "table w5 = table w" and o5: "cache_ok w5"
    using cached_load_player_data_ok [OF o4, of "minimum_seasons u" "player u" "competitions u" now]
    by (simp_all add: s5 t4)
  have n': "n = (if competitions u = [] then Inr Empty_list
                 else case select_max_seasons (table w) (competitions u) of
                        None \<Rightarrow> Inl Int_of_null | Some m \<Rightarrow> Inr (Max_seasons m))"
    by (simp add: n fst_loads t2 split: option.splits)
  have df': "df = (case player u of None \<Rightarrow> []
                   | Some q \<Rightarrow> if q = [] \<or> competitions u = [] then []
                       else select_player_data (table w) (minimum_seasons u) q (competitions u))"
    by (simp add: df fst_loads t4 split: option.splits)
  have "fst (create_streamlit_app u now w) = page_for u (table w) \<and>
        table (snd (create_streamlit_app u now w)) = table w \<and>
        cache_ok (snd (create_streamlit_app u now w))"
  proof (cases d)
    case None
    then have sel: "select_latest_game_date (table w) = None" using d by simp
    show ?thesis
      using t1 o1 by (simp add: create_streamlit_app_def s1 [unfolded None] page_for_def sel)
  next
    case (Some latest)
    then have sel: "select_latest_game_date (table w) = Some latest" using d by simp
    note s1' = s1 [unfolded Some]
    show ?thesis
    proof (cases "competitions u = []")
      case True
      then show ?thesis
        using t2 o2 by (simp add: create_streamlit_app_def s1' s2 page_for_def sel)
    next
      case False
      note c = False
      show ?thesis
      proof (cases "select_max_seasons (table w) (competitions u)")
        case None
        then have "n = Inl Int_of_null" using c by (simp add: n')
        note s3' = s3 [unfolded this]
        show ?thesis
          using c t3 o3 by (simp add: create_streamlit_app_def s1' s2 s3' page_for_def sel None)
      next
        case (Some m)
        then have "n = Inr (Max_seasons m)" using c by (simp add: n')
        note s3' = s3 [unfolded this]
        show ?thesis
        proof (cases "not_player (player u)")
          case True
          then have "page_for u (table w) = Inr No_player_error"
            using c by (auto simp: page_for_def sel Some not_player_def split: option.splits)
          then show ?thesis
            using c True t4 o4 by (simp add: create_streamlit_app_def s1' s2 s3' s4)
        next
          case False
          then obtain q where q: "player u = Some q" "q \<noteq> []"
            by (auto simp: not_player_def split: option.splits)
          have dfq: "select_player_data (table w) (minimum_seasons u) q (competitions u) = df"
            using q c by (simp add: df')
          note s5' = s5 [unfolded q(1)]
          have np: "\<not> not_player (Some q)" using False q(1) by simp
          have "fst (create_streamlit_app u now w) = page_for u (table w)"
            using c np
            by (simp add: create_streamlit_app_def s1' s2 s3' s4 s5' page_for_def sel Some q dfq
                Let_def split: sum.splits)
          moreover have "snd (create_streamlit_app u now w) = w5"
            using c np
            by (simp add: create_streamlit_app_def s1' s2 s3' s4 s5' q Let_def split: sum.splits)
          ultimately show ?thesis using t5 o5 by simp
        qed
      qed
    qed
  qed
  then show "fst (create_streamlit_app u now w) = page_for u (table w)"
    "table (snd (create_streamlit_app u now w)) = table w"
    "cache_ok (snd (create_streamlit_app u now w))"
    by simp_all
qed

lemma cache_ok_empty_world: "cache_ok (empty_world tbl)"
  by (simp add: cache_ok_def empty_world_def)

text \<open>
  C4 (empty-selection short circuit). With an empty competition list each of
  \<^verbatim>\<open>load_number_of_seasons\<close>, \<^verbatim>\<open>load_players\<close> and \<^verbatim>\<open>load_player_data\<close> returns its
  empty result and leaves the world as it is: no engine is created and no query is sent.
  \<^verbatim>\<open>load_player_data\<close> does the same when the player is \<^verbatim>\<open>None\<close> or the empty string.
  The decorated functions send no query either, and return the empty result when the
  stores agree with the table.
\<close>

theorem empty_selection_short_circuit:
  "load_number_of_seasons [] w = (Inr Empty_list, w)
   \<and> load_players threshold [] w = ([], w)
   \<and> load_player_data threshold chosen [] w = ([], w)
   \<and> load_player_data threshold None selected_comps w = ([], w)
   \<and> load_player_data threshold (Some []) selected_comps w = ([], w)
   \<and> issued (snd (cached_load_number_of_seasons [] now w)) = issued w
   \<and> issued (snd (cached_load_players threshold [] now w)) = issued w
   \<and> issued (snd (cached_load_player_data threshold chosen [] now w)) = issued w
   \<and> (cache_ok w \<longrightarrow>
         fst (cached_load_number_of_seasons [] now w) = Inr Empty_list
         \<and> fst (cached_load_players threshold [] now w) = []
         \<and> fst (cached_load_player_data threshold chosen [] now w) = [])"
proof -
  have b1: "load_number_of_seasons [] w = (Inr Empty_list, w)"
    by (simp add: load_number_of_seasons_def)
  have b2: "load_players threshold [] w = ([], w)"
    by (simp add: load_players_def)
  have b3: "load_player_data threshold chosen [] w = ([], w)"
    by (simp add: load_player_data_def split: option.splits)
  have b4: "load_player_data threshold None selected_comps w = ([], w)"
    by (simp add: load_player_data_def)
  have b5: "load_player_data threshold (Some []) selected_comps w = ([], w)"
    by (simp add: load_player_data_def)
  have i1: "issued (snd (cached_load_number_of_seasons [] now w)) = issued w"
    by (simp add: cached_load_number_of_seasons_def b1 split: option.splits)
  have i2: "issued (snd (cached_load_players threshold [] now w)) = issued w"
    by (simp add: cached_load_players_def b2 split: option.splits)
  have i3: "issued (snd (cached_load_player_data threshold chosen [] now w)) = issued w"
    by (simp add: cached_load_player_data_def b3 split: option.splits)
  have c: "fst (cached_load_number_of_seasons [] now w) = Inr Empty_list
         \<and> fst (cached_load_players threshold [] now w) = []
         \<and> fst (cached_load_player_data threshold chosen [] now w) = []" if "cache_ok w"
    using cached_load_number_of_seasons_ok(1) [OF that, of "[]" now]
      cached_load_players_ok(1) [OF that, of threshold "[]" now]
      cached_load_player_data_ok(1) [OF that, of threshold chosen "[]" now]
    by (simp add: b1 b2 b3)
  show ?thesis using b1 b2 b3 b4 b5 i1 i2 i3 c by blast
qed

theorem empty_selection_short_circuit_witness:
  "cache_ok (empty_world [john_doe])
   \<and> cached_load_number_of_seasons [] 0 (empty_world [john_doe]) =
       (Inr Empty_list, (empty_world [john_doe])\<lparr>number_of_seasons_cache := [([], Empty_list, 600)]\<rparr>)
   \<and> fst (cached_load_players 3 [] 0 (empty_world [john_doe])) = []
   \<and> fst (cached_load_player_data 3 (Some ''John Doe'') [] 0 (empty_world [john_doe])) = []
   \<and> issued (snd (cached_load_player_data 3 (Some ''John Doe'') [] 0 (empty_world [john_doe]))) = []"
proof -
  have ok: "cache_ok (empty_world [john_doe])" by (rule cache_ok_empty_world)
  have "cached_load_number_of_seasons [] 0 (empty_world [john_doe]) =
       (Inr Empty_list, (empty_world [john_doe])\<lparr>number_of_seasons_cache := [([], Empty_list, 600)]\<rparr>)"
    by (simp add: cached_load_number_of_seasons_def load_number_of_seasons_def cache_lookup_def
        cache_store_def ttl_def empty_world_def)
  moreover have "issued (empty_world [john_doe]) = []" by (simp add: empty_world_def)
  ultimately show ?thesis
    using ok empty_selection_short_circuit [of "empty_world [john_doe]" 3 "Some ''John Doe''" "[]" 0]
    by simp
qed

text \<open>
  C5 (players sorted, no duplicates). For every threshold and competition list the list
  returned by \<^verbatim>\<open>load_players\<close> is sorted in ascending order and has no duplicates; for a
  non-empty competition list it holds exactly the names of the rows that meet the
  threshold in a selected competition. The same holds for the decorated function when the
  stores agree with the table.
\<close>

theorem load_players_sorted_distinct:
  "sorted (fst (load_players threshold selected_comps w))
   \<and> distinct (fst (load_players threshold selected_comps w))
   \<and> (selected_comps \<noteq> [] \<longrightarrow>
        set (fst (load_players threshold selected_comps w)) =
        player_name ` {r \<in> set (table w).
           at_least_seasons threshold r \<and> in_competitions selected_comps r})
   \<and> (cache_ok w \<longrightarrow>
        sorted (fst (cached_load_players threshold selected_comps now w))
        \<and> distinct (fst (cached_load_players threshold selected_comps now w)))"
proof -
  have s: "sorted (fst (load_players threshold selected_comps w))"
    by (simp add: fst_load_players)
  have d: "distinct (fst (load_players threshold selected_comps w))"
    by (simp add: fst_load_players select_players_def)
  have e: "set (fst (load_players threshold selected_comps w)) =
        player_name ` {r \<in> set (table w).
           at_least_seasons threshold r \<and> in_competitions selected_comps r}"
    if "selected_comps \<noteq> []"
    using that by (simp add: fst_load_players select_players_def)
  have c: "sorted (fst (cached_load_players threshold selected_comps now w))
        \<and> distinct (fst (cached_load_players threshold selected_comps now w))"
    if "cache_ok w"
    using cached_load_players_ok(1) [OF that, of threshold selected_comps now] s d by simp
  show ?thesis using s d e c by blast
qed

theorem load_players_sorted_distinct_witness:
  "cache_ok (empty_world [john_doe\<lparr>player_name := ''Zed''\<rparr>, john_doe\<lparr>player_name := ''Abe''\<rparr>,
                          john_doe\<lparr>player_name := ''Zed''\<rparr>])
   \<and> fst (load_players 3 [''Champions League'']
        (empty_world [john_doe\<lparr>player_name := ''Zed''\<rparr>, john_doe\<lparr>player_name := ''Abe''\<rparr>,
                      john_doe\<lparr>player_name := ''Zed''\<rparr>])) = [''Abe'', ''Zed'']
   \<and> sorted (fst (cached_load_players 3 [''Champions League''] 0
        (empty_world [john_doe\<lparr>player_name := ''Zed''\<rparr>, john_doe\<lparr>player_name := ''Abe''\<rparr>,
                      john_doe\<lparr>player_name := ''Zed''\<rparr>])))
   \<and> distinct (fst (cached_load_players 3 [''Champions League''] 0
        (empty_world [john_doe\<lparr>player_name := ''Zed''\<rparr>, john_doe\<lparr>player_name := ''Abe''\<rparr>,
                      john_doe\<lparr>player_name := ''Zed''\<rparr>])))"
proof -
  let ?w = "empty_world [john_doe\<lparr>player_name := ''Zed''\<rparr>, john_doe\<lparr>player_name := ''Abe''\<rparr>,
                          john_doe\<lparr>player_name := ''Zed''\<rparr>]"
  have ok: "cache_ok ?w" by (rule cache_ok_empty_world)
  have "fst (load_players 3 [''Champions League''] ?w) = [''Abe'', ''Zed'']"
    by (simp add: fst_load_players select_players_def at_least_seasons_def in_competitions_def
        empty_world_def john_doe_def)
  then show ?thesis
    using ok load_players_sorted_distinct [of 3 "[''Champions League'']" ?w 0] by blast
qed

text \<open>
  C9 (no guard on the maximum). For a non-empty competition list that matches no row,
  \<^verbatim>\<open>load_number_of_seasons\<close> creates an engine, sends the query and then fails on the
  conversion of the NULL maximum: it returns neither the empty list nor a number.
\<close>

theorem number_of_seasons_unguarded:
  assumes "selected_comps \<noteq> []"
    and "filter (in_competitions selected_comps) (table w) = []"
  shows "load_number_of_seasons selected_comps w =
           (Inl Int_of_null,
            read_sql (Select_max_seasons (placeholders selected_comps) selected_comps)
              (connect_to_sql_alchemy_server w))
         \<and> (cache_ok w \<longrightarrow>
              fst (cached_load_number_of_seasons selected_comps now w) = Inl Int_of_null)"
proof -
  have "select_max_seasons (table w) selected_comps = None"
    using assms(2) by (simp add: select_max_seasons_def sql_max_def)
  then have b: "load_number_of_seasons selected_comps w =
           (Inl Int_of_null,
            read_sql (Select_max_seasons (placeholders selected_comps) selected_comps)
              (connect_to_sql_alchemy_server w))"
    using assms(1) by (simp add: load_number_of_seasons_def Let_def)
  have "fst (cached_load_number_of_seasons selected_comps now w) = Inl Int_of_null"
    if "cache_ok w"
    using cached_load_number_of_seasons_ok(1) [OF that, of selected_comps now] b by simp
  with b show ?thesis by blast
qed

theorem number_of_seasons_unguarded_witness:
  "[''Europa League''] \<noteq> []
   \<and> filter (in_competitions [''Europa League'']) (table (empty_world [john_doe])) = []
   \<and> cache_ok (empty_world [john_doe])
   \<and> fst (load_number_of_seasons [''Europa League''] (empty_world [john_doe])) = Inl Int_of_null
   \<and> issued (snd (load_number_of_seasons [''Europa League''] (empty_world [john_doe]))) =
       [Select_max_seasons ''?'' [''Europa League'']]
   \<and> fst (cached_load_number_of_seasons [''Europa League''] 0 (empty_world [john_doe])) =
       Inl Int_of_null
   \<and> fst (load_number_of_seasons [''Champions League''] (empty_world [john_doe])) =
       Inr (Max_seasons 3)"
proof -
  have h: "filter (in_competitions [''Europa League'']) (table (empty_world [john_doe])) = []"
    by (simp add: in_competitions_def empty_world_def john_doe_def)
  have ok: "cache_ok (empty_world [john_doe])" by (rule cache_ok_empty_world)
  have "fst (load_number_of_seasons [''Champions League''] (empty_world [john_doe])) =
       Inr (Max_seasons 3)"
    by (simp add: fst_load_number_of_seasons select_max_seasons_def sql_max_def
        in_competitions_def empty_world_def john_doe_def)
  then show ?thesis
    using h ok number_of_seasons_unguarded [OF _ h, of 0]
    by (simp add: read_sql_def connect_to_sql_alchemy_server_def placeholders_def empty_world_def)
qed

text \<open>
  C8 (a second run shows the same). For fixed widget values, when the stores agree with
  the table, a run and a later run from the world the first one left show the same page:
  the same failure, message or overview (metrics, teams string and season table),
  whether the second run is served from the stores or queries again.
\<close>

theorem pipeline_rerun_identical:
  assumes "cache_ok w"
  shows "fst (create_streamlit_app u later (snd (create_streamlit_app u now w))) =
         fst (create_streamlit_app u now w)"
proof -
  let ?w' = "snd (create_streamlit_app u now w)"
  have "cache_ok ?w'" "table ?w' = table w"
    using create_streamlit_app_ok(2,3) [OF assms] by simp_all
  then show ?thesis
    using create_streamlit_app_ok(1) [OF assms, of u now]
      create_streamlit_app_ok(1) [of ?w' u later] by simp
qed

theorem pipeline_rerun_identical_witness:
  "cache_ok (empty_world [john_doe\<lparr>season_name := ''2015/2016'', goals := Some 2\<rparr>,
                          john_doe\<lparr>season_name := ''2017/2018'', goals := Some (- 1)\<rparr>])
   \<and> fst (create_streamlit_app
          \<lparr>competitions = [''Champions League''], minimum_seasons = 3,
            player = Some ''John Doe'', seasons = []\<rparr> 1000
          (snd (create_streamlit_app
             \<lparr>competitions = [''Champions League''], minimum_seasons = 3,
               player = Some ''John Doe'', seasons = []\<rparr> 0
             (empty_world [john_doe\<lparr>season_name := ''2015/2016'', goals := Some 2\<rparr>,
                           john_doe\<lparr>season_name := ''2017/2018'', goals := Some (- 1)\<rparr>]))))
     = Inr (Player_overview
         \<lparr> Number_of_seasons = 3, Appearances = 2, Goals = 2, Assists = 0,
           Nationality = ''Ireland'', Position = ''FW'', Most_used_shirt_number = Num 9,
           Yellow_Cards = 0, Red_Cards = 0, Total_minutes_played = 180,
           Teams_played_for = ''A'',
           Season_table = [(''2015/2016'', 1, 2), (''2016/2017'', 0, 0), (''2017/2018'', 1, 0)] \<rparr>)"
proof -
  let ?rows = "[john_doe\<lparr>season_name := ''2015/2016'', goals := Some 2\<rparr>,
                john_doe\<lparr>season_name := ''2017/2018'', goals := Some (- 1)\<rparr>]"
  let ?u = "\<lparr>competitions = [''Champions League''], minimum_seasons = 3,
             player = Some ''John Doe'', seasons = []\<rparr>"
  have ok: "cache_ok (empty_world ?rows)" by (rule cache_ok_empty_world)
  have sel: "select_player_data ?rows 3 ''John Doe'' [''Champions League''] = ?rows"
    by (simp add: select_player_data_def at_least_seasons_def in_competitions_def john_doe_def)
  have latest: "select_latest_game_date ?rows = Some 0"
    by (simp add: select_latest_game_date_def sql_max_def john_doe_def)
  have mx: "select_max_seasons ?rows [''Champions League''] = Some 3"
    by (simp add: select_max_seasons_def sql_max_def in_competitions_def john_doe_def)
  have "page_for ?u ?rows = Inr (Player_overview
         \<lparr> Number_of_seasons = 3, Appearances = 2, Goals = 2, Assists = 0,
           Nationality = ''Ireland'', Position = ''FW'', Most_used_shirt_number = Num 9,
           Yellow_Cards = 0, Red_Cards = 0, Total_minutes_played = 180,
           Teams_played_for = ''A'',
           Season_table = [(''2015/2016'', 1, 2), (''2016/2017'', 0, 0), (''2017/2018'', 1, 0)] \<rparr>)"
    by (simp add: page_for_def sel scenario_overview latest mx Let_def)
  moreover have "table (empty_world ?rows) = ?rows" by (simp add: empty_world_def)
  ultimately have
    "fst (create_streamlit_app ?u 0 (empty_world ?rows)) = Inr (Player_overview
         \<lparr> Number_of_seasons = 3, Appearances = 2, Goals = 2, Assists = 0,
           Nationality = ''Ireland'', Position = ''FW'', Most_used_shirt_number = Num 9,
           Yellow_Cards = 0, Red_Cards = 0, Total_minutes_played = 180,
           Teams_played_for = ''A'',
           Season_table = [(''2015/2016'', 1, 2), (''2016/2017'', 0, 0), (''2017/2018'', 1, 0)] \<rparr>)"
    using create_streamlit_app_ok(1) [OF ok, of ?u 0] by simp
  then show ?thesis
    using ok pipeline_rerun_identical [OF ok, of ?u 1000 0] by simp
qed

end
